theory Spec2Isabelle
  imports Complex_Main "HOL-Library.AList"
begin

section \<open>Data model of the link-budget notebook\<close>

text \<open>
  The notebook \<^verbatim>\<open>Data_Link_Calculations.ipynb\<close> keeps every datasheet constant in one
  nested dictionary \<^verbatim>\<open>par\<close>: a section name (\<^verbatim>\<open>'common'\<close>, \<^verbatim>\<open>'uplink'\<close>,
  \<^verbatim>\<open>'downlink'\<close>) maps to a dictionary from parameter names to values. A value is a
  number or a sampled spectral curve, itself a dictionary \<^verbatim>\<open>{"x": [...], "y": [...]}\<close>.

  Python dictionaries keep insertion order, so a dictionary is an association list that
  is read with \<^const>\<open>map_of\<close> and written with \<^const>\<open>AList.update\<close> (replace in place,
  or append a new key at the end). Python floats are idealised as the real numbers:
  the values that the calculators compute are stated on reals, without the rounding of
  IEEE doubles. Where the question is which exceptions a run raises, the range of doubles
  counts as well, and the photodiode calculator is modelled a second time with overflow
  and underflow.
\<close>

datatype error =
    KeyError string
  | NameError string
  | TypeError
  | ValueError
  | ZeroDivisionError
  | OverflowError
  | NonFinite

text \<open>
  The first six are Python's exceptions. \<^const>\<open>NonFinite\<close> is none of them: it marks
  the point where NumPy arithmetic yields an infinity or a NaN, for which no real number
  stands, and there the model of a run ends.
\<close>

datatype pval = Num real | Table "(string \<times> real list) list"

type_synonym params = "(string \<times> pval) list"
type_synonym partab = "(string \<times> params) list"

text \<open>\<^verbatim>\<open>d[k]\<close>: a missing key raises \<^verbatim>\<open>KeyError\<close>.\<close>

definition getitem :: "(string \<times> 'a) list \<Rightarrow> string \<Rightarrow> error + 'a" where
  "getitem d k = (case map_of d k of None \<Rightarrow> Inl (KeyError k) | Some v \<Rightarrow> Inr v)"

text \<open>Sequencing of computations that may raise: the first exception wins.\<close>

definition and_then :: "error + 'a \<Rightarrow> ('a \<Rightarrow> error + 'b) \<Rightarrow> error + 'b" where
  "and_then m f = (case m of Inl e \<Rightarrow> Inl e | Inr v \<Rightarrow> f v)"

text \<open>
  \<^verbatim>\<open>p[k]\<close> used as an operand of float arithmetic: a dictionary there raises
  \<^verbatim>\<open>TypeError\<close>.
\<close>

definition getnum :: "params \<Rightarrow> string \<Rightarrow> error + real" where
  "getnum p k = and_then (getitem p k) (\<lambda>v. case v of Num r \<Rightarrow> Inr r | Table t \<Rightarrow> Inl TypeError)"

subsection \<open>The parameter table as the notebook writes it\<close>

definition als_x :: "real list" where
  "als_x = [299.372, 340.167, 377.824, 426.778, 470.711, 528.452, 569.874, 607.531,
            618.828, 627.615, 635.146, 638.912, 652.72, 664.017, 667.782, 685.356,
            697.908, 726.778, 749.372, 843.515, 894.351]"

definition als_y :: "real list" where
  "als_y = [3.659, 5.488, 9.451, 22.866, 40.244, 63.11, 81.402, 94.512, 96.646, 99.695,
            96.341, 79.878, 60.366, 40.244, 32.317, 19.512, 12.805, 9.756, 7.927,
            8.232, 7.317]"

definition als_spectral_response :: "(string \<times> real list) list" where
  "als_spectral_response = [(''x'', als_x), (''y'', als_y)]"

definition led_x :: "real list" where
  "led_x = [373.584, 439.648, 489.746, 537.5, 554.199, 563.281, 569.434, 574.414,
            579.688, 588.184, 590.82, 592.578, 595.215, 597.559, 598.145, 601.953,
            606.934, 610.742, 618.652, 630.078, 793.555, 796.631]"

definition led_y :: "real list" where
  "led_y = [0.005, 0.005, 0.004, 0.002, 0.008, 0.031, 0.067, 0.125, 0.274, 0.806, 0.993,
            0.994, 0.776, 0.475, 0.318, 0.185, 0.077, 0.034, 0.01, 0.004, 0.001,
            0.004]"

definition led_spectral_response :: "(string \<times> real list) list" where
  "led_spectral_response = [(''x'', led_x), (''y'', led_y)]"

definition par_common :: params where
  "par_common =
     [(''distance'', Num (10 / 10 ^ 3))]"

definition par_uplink :: params where
  "par_uplink =
     [(''led_Ie'', Num (145.0 / 10 ^ 3 / 100 * 20)),
      (''led_theta'', Num 20),
      (''led_current'', Num (20 / 10 ^ 3)),
      (''pd_eff'', Num (32 / 10 ^ 6)),
      (''pd_Ir0'', Num (30 / 10 ^ 9))]"

definition par_downlink :: params where
  "par_downlink =
     [(''als_IPH3'', Num (520 / 10 ^ 6)),
      (''led_IV_typ'', Num (60 / 10 ^ 3)),
      (''als_spectral_response'', Table als_spectral_response),
      (''led_spectral_response'', Table led_spectral_response)]"

definition par_literal :: partab where
  "par_literal =
     [(''common'', par_common), (''uplink'', par_uplink), (''downlink'', par_downlink)]"

subsection \<open>The start-up merge of the common defaults\<close>

text \<open>
  \<^verbatim>\<open>
  for sk in par:
      if sk != 'common':
          for k in par['common']:
              if k not in par[sk]:
                  par[sk][k] = par['common'][k]
  \<close>
  Both loops run over the keys that the dictionary had when the loop started; the
  assignments add keys to \<^verbatim>\<open>par[sk]\<close> only, never to \<^verbatim>\<open>par\<close> or to
  \<^verbatim>\<open>par['common']\<close>. The table is threaded through the loops as state. The sections
  of the literal are separate dictionary objects, so a section is a value here and an
  assignment to one section reaches no other.
\<close>

fun merge_keys :: "string \<Rightarrow> string list \<Rightarrow> partab \<Rightarrow> error + partab" where
  "merge_keys sk [] par = Inr par"
| "merge_keys sk (k # ks) par =
     and_then (getitem par sk) (\<lambda>sec.
       if map_of sec k = None
       then and_then (getitem par ''common'') (\<lambda>com.
              and_then (getitem com k) (\<lambda>v.
                merge_keys sk ks (AList.update sk (AList.update k v sec) par)))
       else merge_keys sk ks par)"

fun merge_sections :: "string list \<Rightarrow> partab \<Rightarrow> error + partab" where
  "merge_sections [] par = Inr par"
| "merge_sections (sk # sks) par =
     (if sk \<noteq> ''common''
      then and_then (getitem par ''common'') (\<lambda>com.
             and_then (merge_keys sk (map fst com) par) (merge_sections sks))
      else merge_sections sks par)"

definition merge_common :: "partab \<Rightarrow> error + partab" where
  "merge_common par = merge_sections (map fst par) par"

text \<open>The value of \<^verbatim>\<open>par\<close> once the cell has run: both links have inherited the distance.\<close>

definition par_merged :: partab where
  "par_merged =
     [(''common'', par_common),
      (''uplink'', par_uplink @ [(''distance'', Num (10 / 10 ^ 3))]),
      (''downlink'', par_downlink @ [(''distance'', Num (10 / 10 ^ 3))])]"

section \<open>The photodiode current calculator\<close>

text \<open>
  The solid angle of an \<open>a\<close> by \<open>b\<close> rectangle seen from distance \<open>d\<close>, as all three
  calculators of the notebook write it:
  \<^verbatim>\<open>4*math.atan(a*b / (2*d*math.sqrt(4*(d**2) + a**2 + b**2)))\<close>.
  \<^verbatim>\<open>math.sqrt\<close> raises \<^verbatim>\<open>ValueError\<close> below zero and float division raises
  \<^verbatim>\<open>ZeroDivisionError\<close> at a zero divisor.
\<close>

definition angle_norm :: "real \<Rightarrow> real \<Rightarrow> real \<Rightarrow> error + real" where
  "angle_norm a b d =
     (let r = 4 * d\<^sup>2 + a\<^sup>2 + b\<^sup>2 in
      if r < 0 then Inl ValueError
      else let den = 2 * d * sqrt r in
        if den = 0 then Inl ZeroDivisionError
        else Inr (4 * arctan (a * b / den)))"

text \<open>
  The body of \<^verbatim>\<open>calculate_pd_current\<close>, one definition for each local variable that
  the function derives from the section \<^verbatim>\<open>p = par['uplink']\<close>.
\<close>

definition irradiance_pd :: "params \<Rightarrow> error + real" where
  "irradiance_pd p =
     (let a = 1 / 10 ^ 2; b = 1 / 10 ^ 2 in
      and_then (getnum p ''distance'') (\<lambda>d.
      and_then (angle_norm a b d) (\<lambda>angle.
      and_then (getnum p ''led_Ie'') (\<lambda>led_Ie.
      and_then (getnum p ''led_current'') (\<lambda>led_current.
        Inr (led_Ie * led_current / (20 / 10 ^ 3) * angle))))))"

definition current_pd :: "params \<Rightarrow> error + real" where
  "current_pd p =
     and_then (irradiance_pd p) (\<lambda>irr.
     and_then (getnum p ''pd_eff'') (\<lambda>pd_eff. Inr (pd_eff * irr)))"

text \<open>
  \<^verbatim>\<open>20*math.log10(current_pd/p['pd_Ir0'])\<close>: the division raises at a zero dark
  current, the logarithm raises \<^verbatim>\<open>ValueError\<close> at a quotient that is not positive.
\<close>

definition snr_pd :: "params \<Rightarrow> real \<Rightarrow> error + real" where
  "snr_pd p cur =
     and_then (getnum p ''pd_Ir0'') (\<lambda>pd_Ir0.
       if pd_Ir0 = 0 then Inl ZeroDivisionError
       else if cur / pd_Ir0 \<le> 0 then Inl ValueError
       else Inr (20 * log 10 (cur / pd_Ir0)))"

text \<open>
  What a calculator prints: \<open>F3 v\<close> is the value \<open>v\<close> handed to the format
  \<^verbatim>\<open>:.3f\<close>, and \<open>Repr v\<close> is a float printed in its plain representation. The
  result of a run is the list of the values printed, and the exception that ended the
  run, if any; runs with equal results print equal text. The first two lines of
  \<^verbatim>\<open>calculate_pd_current\<close> are printed before the third is computed.
\<close>

datatype out_item = F3 real | Repr real

definition calculate_pd_current :: "partab \<Rightarrow> out_item list \<times> error option" where
  "calculate_pd_current par =
     (case getitem par ''uplink'' of Inl e \<Rightarrow> ([], Some e) | Inr p \<Rightarrow>
       (case irradiance_pd p of Inl e \<Rightarrow> ([], Some e) | Inr irr \<Rightarrow>
         (case current_pd p of Inl e \<Rightarrow> ([], Some e) | Inr cur \<Rightarrow>
           (case snr_pd p cur of
              Inl e \<Rightarrow> ([F3 irr, F3 (cur * 10 ^ 6)], Some e)
            | Inr snr \<Rightarrow> ([F3 irr, F3 (cur * 10 ^ 6), Repr snr], None)))))"

text \<open>
  The text of \<open>F3 v\<close>: \<^verbatim>\<open>f'{v:.3f}'\<close> prints \<open>v\<close> rounded to thousandths, ties to
  the even neighbour, and \<open>fixed3 v = n\<close> stands for the printed decimal \<open>n / 1000\<close>.
\<close>

definition fixed3 :: "real \<Rightarrow> int" where
  "fixed3 v =
     (let t = v * 1000; n = \<lfloor>t\<rfloor>; f = t - of_int n in
      if f < 1 / 2 then n
      else if 1 / 2 < f then n + 1
      else if even n then n else n + 1)"

section \<open>The phototransistor current calculators\<close>

subsection \<open>What the calculators take from libraries\<close>

text \<open>
  The calculators call the colour-science and SciPy packages, which are not part of the
  notebook. A spectral distribution is built by
  \<^verbatim>\<open>colour.SpectralDistribution(data, domain)\<close> from the values and the wavelengths.
\<close>

datatype sd = SpectralDistribution "real list" "real list"

text \<open>
  The library calls whose results the notebook only passes on are parameters:
  \<^item> \<open>interpolate\<close> is \<^verbatim>\<open>.interpolate(obs.shape)\<close> for the shape of the library's
    table \<^verbatim>\<open>SDS_LEFS_PHOTOPIC['CIE 1924 Photopic Standard Observer']\<close>;
  \<^item> \<open>luminous_efficiency\<close> is \<^verbatim>\<open>colour.luminous_efficiency(sd, lef)\<close>, with \<open>None\<close>
    for a call that leaves the second argument to its default;
  \<^item> \<open>luminous_efficacy_A\<close> is the value of
    \<^verbatim>\<open>colour.luminous_efficacy(colour.sd_CIE_standard_illuminant_A())\<close>;
  \<^item> \<open>sigma\<close> is \<^verbatim>\<open>scipy.constants.sigma\<close>, the Stefan-Boltzmann constant.

  Every theorem below holds for all values of these parameters, unless it names the
  sample library. The library calls are taken to return; an exception raised inside the
  packages is not part of the model.
\<close>

record library =
  interpolate :: "sd \<Rightarrow> sd"
  luminous_efficiency :: "sd \<Rightarrow> sd option \<Rightarrow> real"
  luminous_efficacy_A :: real
  sigma :: real

text \<open>
  Modelled from the spec: \<^verbatim>\<open>.normalise()\<close> of the colour-science package, which both
  definitions of \<^verbatim>\<open>calculate_pt_current\<close> call on every curve and whose code is not under
  \<^verbatim>\<open>src/\<close>. The spec has the curves normalised, so that the overlap integral depends on
  the shape of a curve and not on its amplitude; the package documents the operation as
  the multiplication of every value by \<open>1 / max(values) * factor\<close>, with the factor 1 by
  default. The maximum of no values raises \<^verbatim>\<open>ValueError\<close>. At a maximum of zero NumPy
  divides without raising and the values are no longer real numbers; the model stops
  there with \<^const>\<open>NonFinite\<close>.
\<close>

definition normalise :: "sd \<Rightarrow> error + sd" where
  "normalise s =
     (case s of SpectralDistribution ys xs \<Rightarrow>
        if ys = [] then Inl ValueError
        else let m = Max (set ys) in
          if m = 0 then Inl NonFinite
          else Inr (SpectralDistribution (map (\<lambda>v. v * (1 / m * 1)) ys) xs))"

text \<open>
  \<^verbatim>\<open>colour.SpectralDistribution(spec['y'], spec['x']).normalise().interpolate(obs.shape)\<close>
  for a value \<^verbatim>\<open>spec\<close>; a float cannot be subscripted.
\<close>

definition spectral_distribution :: "pval \<Rightarrow> error + sd" where
  "spectral_distribution spec =
     (case spec of
        Num r \<Rightarrow> Inl TypeError
      | Table t \<Rightarrow>
          and_then (getitem t ''y'') (\<lambda>y.
          and_then (getitem t ''x'') (\<lambda>x. Inr (SpectralDistribution y x))))"

definition distribution :: "library \<Rightarrow> pval \<Rightarrow> error + sd" where
  "distribution lib spec =
     and_then (spectral_distribution spec) (\<lambda>s.
     and_then (normalise s) (\<lambda>n. Inr (interpolate lib n)))"

subsection \<open>The first definition of \<^verbatim>\<open>calculate_pt_current\<close>\<close>

text \<open>The local variable \<^verbatim>\<open>eff\<close>; here \<^verbatim>\<open>spec\<close> is a local variable of the function.\<close>

definition eff :: "library \<Rightarrow> partab \<Rightarrow> error + real" where
  "eff lib par =
     and_then (getitem par ''downlink'') (\<lambda>dl.
     and_then (getitem dl ''als_spectral_response'') (\<lambda>spec.
     and_then (distribution lib spec) (\<lambda>dis_pt.
     and_then (getitem par ''downlink'') (\<lambda>dl.
     and_then (getitem dl ''led_spectral_response'') (\<lambda>spec.
     and_then (distribution lib spec) (\<lambda>dis_led.
       Inr (luminous_efficiency lib dis_led (Some dis_pt))))))))"

text \<open>The local variable \<^verbatim>\<open>I\<close>, the estimated current.\<close>

definition pt_current :: "library \<Rightarrow> partab \<Rightarrow> error + real" where
  "pt_current lib par =
     and_then (eff lib par) (\<lambda>eff.
     let a = 1 / 10 ^ 2; b = 1 / 10 ^ 2 in
     and_then (getitem par ''downlink'') (\<lambda>dl.
     and_then (getnum dl ''distance'') (\<lambda>d.
     and_then (angle_norm a b d) (\<lambda>angle.
     and_then (getitem par ''downlink'') (\<lambda>dl.
     and_then (getnum dl ''led_IV_typ'') (\<lambda>led_IV_typ.
     let irr_act = led_IV_typ * angle * 100 * 100;
         irr_ref = 1000 in
     and_then (getitem par ''downlink'') (\<lambda>dl.
     and_then (getnum dl ''als_IPH3'') (\<lambda>als_IPH3.
       Inr (als_IPH3 * eff * irr_act / irr_ref)))))))))"

definition calculate_pt_current :: "library \<Rightarrow> partab \<Rightarrow> out_item list \<times> error option" where
  "calculate_pt_current lib par =
     (case pt_current lib par of
        Inl e \<Rightarrow> ([], Some e)
      | Inr I \<Rightarrow> ([F3 (I * 10 ^ 3)], None))"

subsection \<open>The module-level variables\<close>

text \<open>
  The notebook's cells share the module namespace. Of it the calculators read
  \<^verbatim>\<open>par\<close> and, in the last cell, \<^verbatim>\<open>spec\<close>; a name that no cell has assigned yet
  is unbound and reading it raises \<^verbatim>\<open>NameError\<close>.
\<close>

record globals =
  gpar :: partab
  gspec :: "pval option"

text \<open>The cell that builds \<^verbatim>\<open>par\<close> and merges the defaults; nothing else is bound yet.\<close>

definition cell_par :: "error + globals" where
  "cell_par = and_then (merge_common par_literal) (\<lambda>par. Inr \<lparr>gpar = par, gspec = None\<rparr>)"

text \<open>
  The cell \<^verbatim>\<open>spec = par['downlink']['als_spectral_response']\<close>; its other statements
  bind \<^verbatim>\<open>x\<close> and \<^verbatim>\<open>y\<close>, which no calculator reads.
\<close>

definition cell_spec :: "globals \<Rightarrow> error + globals" where
  "cell_spec g =
     and_then (getitem (gpar g) ''downlink'') (\<lambda>dl.
     and_then (getitem dl ''als_spectral_response'') (\<lambda>s. Inr (g\<lparr>gspec := Some s\<rparr>)))"

subsection \<open>The second definition of \<^verbatim>\<open>calculate_pt_current\<close>\<close>

text \<open>
  The last code cell defines \<^verbatim>\<open>calculate_pt_current\<close> again. Its local variables
  \<^verbatim>\<open>power_per_area\<close> and \<^verbatim>\<open>irr_mw_per_cm2\<close> depend on the libraries only. The
  quotients here have NumPy floats as divisors: a zero divisor does not raise, and the
  model stops with \<^const>\<open>NonFinite\<close>.
\<close>

definition power_per_area :: "library \<Rightarrow> real" where
  "power_per_area lib = (let T = 2856 in 1.0 * sigma lib * T ^ 4)"

definition irr_mw_per_cm2 :: "library \<Rightarrow> error + real" where
  "irr_mw_per_cm2 lib =
     (let eff_lm_per_watt = luminous_efficacy_A lib in
      if eff_lm_per_watt = 0 then Inl NonFinite
      else let irr_watt_per_m2 = 1000 / eff_lm_per_watt in
        Inr (irr_watt_per_m2 * 10 ^ 3 / 100 / 100))"

text \<open>
  The statements up to the first \<^verbatim>\<open>print\<close>: the solid angle and the black-body power
  are computed and not used afterwards.
\<close>

definition bb_irradiance :: "library \<Rightarrow> globals \<Rightarrow> error + real" where
  "bb_irradiance lib g =
     and_then (getitem (gpar g) ''downlink'') (\<lambda>p.
     let a = 1 / 10 ^ 2; b = 1 / 10 ^ 2 in
     and_then (getnum p ''distance'') (\<lambda>d.
     and_then (angle_norm a b d) (\<lambda>angle.
     let ppa = power_per_area lib in
       irr_mw_per_cm2 lib)))"

text \<open>The statements after it, up to \<^verbatim>\<open>normalized_response\<close>.\<close>

definition normalized_response :: "library \<Rightarrow> globals \<Rightarrow> real \<Rightarrow> error + real" where
  "normalized_response lib g irr =
     (case gspec g of
        None \<Rightarrow> Inl (NameError ''spec'')
      | Some spec \<Rightarrow>
          and_then (distribution lib spec) (\<lambda>dis.
          let eff_pt = luminous_efficiency lib dis None in
          and_then (getitem (gpar g) ''downlink'') (\<lambda>dl.
          and_then (getnum dl ''als_IPH3'') (\<lambda>als_IPH3.
            if irr * eff_pt = 0 then Inl NonFinite
            else Inr (als_IPH3 / (irr * eff_pt))))))"

definition calculate_pt_current_2 :: "library \<Rightarrow> globals \<Rightarrow> out_item list \<times> error option" where
  "calculate_pt_current_2 lib g =
     (case bb_irradiance lib g of Inl e \<Rightarrow> ([], Some e) | Inr irr \<Rightarrow>
       (case normalized_response lib g irr of
          Inl e \<Rightarrow> ([F3 irr], Some e)
        | Inr nr \<Rightarrow> ([F3 irr, F3 (nr * 10 ^ 3)], None)))"

subsection \<open>The notebook's state at the last cell, and a sample library\<close>

text \<open>The module-level variables once the cells before the last one have run in order.\<close>

definition notebook_globals :: globals where
  "notebook_globals = \<lparr>gpar = par_merged, gspec = Some (Table als_spectral_response)\<rparr>"

text \<open>
  For closed examples the library parameters need values. The two numbers are the
  Stefan-Boltzmann constant and a luminous efficacy of illuminant A for which the last
  cell prints the notebook's irradiance 0.642; the two functions are stand-ins (no
  resampling, and the mean of the values as efficiency), not the library's.
\<close>

definition lib_example :: library where
  "lib_example =
     \<lparr>interpolate = (\<lambda>s. s),
      luminous_efficiency =
        (\<lambda>s lef. case s of SpectralDistribution ys xs \<Rightarrow> sum_list ys / of_nat (length ys)),
      luminous_efficacy_A = 155.8,
      sigma = 5.670374419 / 10 ^ 8\<rparr>"

section \<open>The photodiode calculator on the range of doubles\<close>

text \<open>
  Which exceptions a run raises depends on more than the real values: a product of
  doubles overflows to an infinity or underflows to zero, and \<^verbatim>\<open>**\<close> raises
  \<^verbatim>\<open>OverflowError\<close>. For the exceptions of \<^verbatim>\<open>calculate_pd_current\<close> the function is
  therefore modelled a second time, on values that are a real number, an infinity with
  its sign (\<open>True\<close> for the positive one) or a NaN. An operation takes the exact result
  of its real operands to the range of IEEE doubles; the rounding to 53 bits inside that
  range, and the sign of a zero, stay idealised.
\<close>

datatype fl = Finite real | Infty bool | NaN

text \<open>
  Round-to-nearest sends a real to an infinity from \<open>2 ^ 1024 - 2 ^ 970\<close> on, half an
  ulp above the largest double, and to zero up to \<open>2 ^ -1075\<close>, half the smallest
  subnormal.
\<close>

definition overflow_threshold :: real where
  "overflow_threshold = 2 ^ 1024 - 2 ^ 970"

definition underflow_threshold :: real where
  "underflow_threshold = 1 / 2 ^ 1075"

definition rng :: "real \<Rightarrow> fl" where
  "rng x =
     (if overflow_threshold \<le> \<bar>x\<bar> then Infty (0 < x)
      else if \<bar>x\<bar> \<le> underflow_threshold then Finite 0
      else Finite x)"

text \<open>Float \<^verbatim>\<open>*\<close> and \<^verbatim>\<open>+\<close> never raise.\<close>

fun fmul :: "fl \<Rightarrow> fl \<Rightarrow> fl" where
  "fmul NaN y = NaN"
| "fmul x NaN = NaN"
| "fmul (Finite x) (Finite y) = rng (x * y)"
| "fmul (Infty s) (Finite y) = (if y = 0 then NaN else Infty (s = (0 < y)))"
| "fmul (Finite x) (Infty t) = (if x = 0 then NaN else Infty (t = (0 < x)))"
| "fmul (Infty s) (Infty t) = Infty (s = t)"

fun fadd :: "fl \<Rightarrow> fl \<Rightarrow> fl" where
  "fadd NaN y = NaN"
| "fadd x NaN = NaN"
| "fadd (Finite x) (Finite y) = rng (x + y)"
| "fadd (Infty s) (Finite y) = Infty s"
| "fadd (Finite x) (Infty t) = Infty t"
| "fadd (Infty s) (Infty t) = (if s = t then Infty s else NaN)"

text \<open>Float \<^verbatim>\<open>/\<close> raises \<^verbatim>\<open>ZeroDivisionError\<close> at a zero divisor, whatever the dividend.\<close>

fun fdiv :: "fl \<Rightarrow> fl \<Rightarrow> error + fl" where
  "fdiv x (Finite y) =
     (if y = 0 then Inl ZeroDivisionError
      else case x of
          Finite x' \<Rightarrow> Inr (rng (x' / y))
        | Infty s \<Rightarrow> Inr (Infty (s = (0 < y)))
        | NaN \<Rightarrow> Inr NaN)"
| "fdiv NaN y = Inr NaN"
| "fdiv x NaN = Inr NaN"
| "fdiv (Finite x) (Infty t) = Inr (Finite 0)"
| "fdiv (Infty s) (Infty t) = Inr NaN"

text \<open>
  \<^verbatim>\<open>x**2\<close> raises \<^verbatim>\<open>OverflowError\<close> where the square of a finite \<open>x\<close> overflows; a
  square that underflows is zero.
\<close>

fun fsquare :: "fl \<Rightarrow> error + fl" where
  "fsquare (Finite x) =
     (if overflow_threshold \<le> x\<^sup>2 then Inl OverflowError else Inr (rng (x\<^sup>2)))"
| "fsquare (Infty s) = Inr (Infty True)"
| "fsquare NaN = Inr NaN"

text \<open>
  \<^verbatim>\<open>math.sqrt\<close> and \<^verbatim>\<open>math.log10\<close> raise \<^verbatim>\<open>ValueError\<close> outside their domain,
  \<^verbatim>\<open>math.atan\<close> never raises.
\<close>

fun fsqrt :: "fl \<Rightarrow> error + fl" where
  "fsqrt (Finite x) = (if x < 0 then Inl ValueError else Inr (Finite (sqrt x)))"
| "fsqrt (Infty s) = (if s then Inr (Infty True) else Inl ValueError)"
| "fsqrt NaN = Inr NaN"

fun fatan :: "fl \<Rightarrow> fl" where
  "fatan (Finite x) = rng (arctan x)"
| "fatan (Infty s) = Finite (if s then pi / 2 else - (pi / 2))"
| "fatan NaN = NaN"

fun flog10 :: "fl \<Rightarrow> error + fl" where
  "flog10 (Finite x) = (if x \<le> 0 then Inl ValueError else Inr (rng (log 10 x)))"
| "flog10 (Infty s) = (if s then Inr (Infty True) else Inl ValueError)"
| "flog10 NaN = Inr NaN"

text \<open>
  The calculator, operation by operation in the order in which Python evaluates them.
  A number of the table is a double and so finite.
\<close>

definition angle_norm_fl :: "fl \<Rightarrow> fl \<Rightarrow> fl \<Rightarrow> error + fl" where
  "angle_norm_fl a b d =
     and_then (fsquare d) (\<lambda>d2.
     and_then (fsquare a) (\<lambda>a2.
     and_then (fsquare b) (\<lambda>b2.
     and_then (fsqrt (fadd (fadd (fmul (Finite 4) d2) a2) b2)) (\<lambda>root.
     and_then (fdiv (fmul a b) (fmul (fmul (Finite 2) d) root)) (\<lambda>q.
       Inr (fmul (Finite 4) (fatan q)))))))"

text \<open>
  A value of the table as an operand of float arithmetic. The two factors of
  \<^verbatim>\<open>p['led_Ie'] * p['led_current']\<close> are both looked up before they are multiplied.
\<close>

definition number :: "pval \<Rightarrow> error + real" where
  "number v = (case v of Num r \<Rightarrow> Inr r | Table t \<Rightarrow> Inl TypeError)"

definition irradiance_pd_fl :: "params \<Rightarrow> error + fl" where
  "irradiance_pd_fl p =
     (let a = Finite (1 / 10 ^ 2); b = Finite (1 / 10 ^ 2) in
      and_then (getnum p ''distance'') (\<lambda>d.
      and_then (angle_norm_fl a b (Finite d)) (\<lambda>angle.
      and_then (getitem p ''led_Ie'') (\<lambda>v1.
      and_then (getitem p ''led_current'') (\<lambda>v2.
      and_then (number v1) (\<lambda>led_Ie.
      and_then (number v2) (\<lambda>led_current.
      and_then (fdiv (fmul (Finite led_Ie) (Finite led_current)) (Finite (20 / 10 ^ 3))) (\<lambda>r.
        Inr (fmul r angle)))))))))"

definition current_pd_fl :: "params \<Rightarrow> error + fl" where
  "current_pd_fl p =
     and_then (irradiance_pd_fl p) (\<lambda>irr.
     and_then (getnum p ''pd_eff'') (\<lambda>pd_eff. Inr (fmul (Finite pd_eff) irr)))"

definition snr_pd_fl :: "params \<Rightarrow> fl \<Rightarrow> error + fl" where
  "snr_pd_fl p cur =
     and_then (getnum p ''pd_Ir0'') (\<lambda>pd_Ir0.
     and_then (fdiv cur (Finite pd_Ir0)) (\<lambda>ratio.
     and_then (flog10 ratio) (\<lambda>l. Inr (fmul (Finite 20) l))))"

text \<open>The printed lines; an infinity or a NaN is printed as such, without an exception.\<close>

datatype fl_item = F3_fl fl | Repr_fl fl

definition calculate_pd_current_fl :: "partab \<Rightarrow> fl_item list \<times> error option" where
  "calculate_pd_current_fl par =
     (case getitem par ''uplink'' of Inl e \<Rightarrow> ([], Some e) | Inr p \<Rightarrow>
       (case irradiance_pd_fl p of Inl e \<Rightarrow> ([], Some e) | Inr irr \<Rightarrow>
         (case current_pd_fl p of Inl e \<Rightarrow> ([], Some e) | Inr cur \<Rightarrow>
           (case snr_pd_fl p cur of
              Inl e \<Rightarrow> ([F3_fl irr, F3_fl (fmul cur (Finite (10 ^ 6)))], Some e)
            | Inr snr \<Rightarrow>
                ([F3_fl irr, F3_fl (fmul cur (Finite (10 ^ 6))), Repr_fl snr], None)))))"

section \<open>The solid angle\<close>

text \<open>
  Claim C1. For a square of side \<open>s > 0\<close> at distance \<open>d > 0\<close> the solid angle that the
  calculators compute, the notebook's expression with \<open>a = b = s\<close>, is defined (no
  exception) and equals the closed form \<open>4 * arctan (s\<^sup>2 / (2 * d * sqrt (4 * d\<^sup>2 + 2 * s\<^sup>2)))\<close>.
\<close>

theorem angle_norm_closed_form:
  assumes "0 < s" and "0 < d"
  shows "angle_norm s s d = Inr (4 * arctan (s\<^sup>2 / (2 * d * sqrt (4 * d\<^sup>2 + 2 * s\<^sup>2))))"
proof -
  have r: "4 * d\<^sup>2 + s\<^sup>2 + s\<^sup>2 = 4 * d\<^sup>2 + 2 * s\<^sup>2" by simp
  have pos: "0 < 4 * d\<^sup>2 + 2 * s\<^sup>2" using assms by (simp add: add_pos_pos)
  then have den: "2 * d * sqrt (4 * d\<^sup>2 + 2 * s\<^sup>2) \<noteq> 0" using assms by simp
  have ab: "s * s = s\<^sup>2" by (simp add: power2_eq_square)
  have "angle_norm s s d =
      (let r = 4 * d\<^sup>2 + 2 * s\<^sup>2 in
       if r < 0 then Inl ValueError
       else let den = 2 * d * sqrt r in
         if den = 0 then Inl ZeroDivisionError else Inr (4 * arctan (s\<^sup>2 / den)))"
    unfolding angle_norm_def r ab ..
  also have "\<dots> = Inr (4 * arctan (s\<^sup>2 / (2 * d * sqrt (4 * d\<^sup>2 + 2 * s\<^sup>2))))"
  proof -
    have "\<not> 4 * d\<^sup>2 + 2 * s\<^sup>2 < 0" using pos by simp
    then show ?thesis unfolding Let_def using den by (simp only: if_False)
  qed
  finally show ?thesis .
qed

theorem angle_norm_closed_form_witness:
  "angle_norm 1 1 1 = Inr (4 * arctan (1 / (2 * sqrt 6)))"
  using angle_norm_closed_form [of 1 1] by simp

section \<open>The merge of the common defaults\<close>

lemma getitem_Inr_iff: "getitem d k = Inr v \<longleftrightarrow> map_of d k = Some v"
  by (simp add: getitem_def split: option.splits)


lemma getitem_Some: "map_of d k = Some v \<Longrightarrow> getitem d k = Inr v"
  by (simp add: getitem_def)

lemma and_then_Inr [simp]: "and_then (Inr v) f = f v"
  by (simp add: and_then_def)

lemma and_then_Inl [simp]: "and_then (Inl e) f = Inl e"
  by (simp add: and_then_def)

lemma merge_keys_result:
  assumes "map_of par ''common'' = Some com" and "map_of par sk = Some sec"
    and "sk \<noteq> ''common''" and "set ks \<subseteq> dom (map_of com)"
  shows "\<exists>par' sec'. merge_keys sk ks par = Inr par' \<and>
           map_of par' = (map_of par)(sk \<mapsto> sec') \<and>
           map_of sec' = (map_of com |` set ks) ++ map_of sec"
  using assms
proof (induction ks arbitrary: par sec)
  case Nil
  have "map_of par = (map_of par)(sk \<mapsto> sec)" using Nil.prems(2) by (auto simp: fun_upd_idem)
  then show ?case by (intro exI [of _ par] exI [of _ sec]) simp
next
  case (Cons k ks)
  show ?case
  proof (cases "map_of sec k")
    case None
    from Cons.prems(4) obtain v where v: "map_of com k = Some v" by auto
    let ?sec1 = "AList.update k v sec"
    let ?par1 = "AList.update sk ?sec1 par"
    have p1: "map_of ?par1 = (map_of par)(sk \<mapsto> ?sec1)" by (simp add: update_conv')
    have "\<exists>par' sec'. merge_keys sk ks ?par1 = Inr par' \<and>
           map_of par' = (map_of ?par1)(sk \<mapsto> sec') \<and>
           map_of sec' = (map_of com |` set ks) ++ map_of ?sec1"
      using Cons.prems by (intro Cons.IH) (simp_all add: p1)
    then obtain par' sec' where r: "merge_keys sk ks ?par1 = Inr par'"
      "map_of par' = (map_of ?par1)(sk \<mapsto> sec')"
      "map_of sec' = (map_of com |` set ks) ++ map_of ?sec1" by blast
    have run: "merge_keys sk (k # ks) par = Inr par'"
      using None v r(1) Cons.prems(1,2) by (simp add: getitem_Some)
    have m: "map_of sec' = (map_of com |` set (k # ks)) ++ map_of sec"
      unfolding r(3) update_conv' using None v
      by (auto simp: map_add_def restrict_map_def fun_eq_iff split: option.splits)
    show ?thesis using run r(2) m unfolding p1 by (intro exI [of _ par'] exI [of _ sec']) simp
  next
    case (Some w)
    have "\<exists>par' sec'. merge_keys sk ks par = Inr par' \<and>
           map_of par' = (map_of par)(sk \<mapsto> sec') \<and>
           map_of sec' = (map_of com |` set ks) ++ map_of sec"
      using Cons.prems by (intro Cons.IH) simp_all
    then obtain par' sec' where r: "merge_keys sk ks par = Inr par'"
      "map_of par' = (map_of par)(sk \<mapsto> sec')"
      "map_of sec' = (map_of com |` set ks) ++ map_of sec" by blast
    have run: "merge_keys sk (k # ks) par = Inr par'"
      using Some r(1) Cons.prems(2) by (simp add: getitem_Some)
    have m: "map_of sec' = (map_of com |` set (k # ks)) ++ map_of sec"
      unfolding r(3) using Some
      by (auto simp: map_add_def restrict_map_def fun_eq_iff split: option.splits)
    show ?thesis using run r(2) m by (intro exI [of _ par'] exI [of _ sec']) simp
  qed
qed

lemma restrict_keys: "map_of com |` set (map fst com) = map_of com"
proof
  fix k
  show "(map_of com |` set (map fst com)) k = map_of com k"
  proof (cases "k \<in> set (map fst com)")
    case True
    then show ?thesis by (simp add: restrict_map_def)
  next
    case False
    then have "map_of com k = None" by (simp add: map_of_eq_None_iff)
    then show ?thesis by (simp add: restrict_map_def)
  qed
qed

lemma merge_sections_result:
  assumes "map_of par ''common'' = Some com" and "set sks \<subseteq> dom (map_of par)"
  shows "\<exists>par'. merge_sections sks par = Inr par' \<and>
           map_of par' ''common'' = Some com \<and>
           dom (map_of par') = dom (map_of par) \<and>
           (\<forall>sk sec. map_of par sk = Some sec \<longrightarrow>
              (\<exists>sec'. map_of par' sk = Some sec' \<and>
                 map_of sec' = (if sk \<in> set sks \<and> sk \<noteq> ''common''
                                then map_of com ++ map_of sec else map_of sec)))"
  using assms
proof (induction sks arbitrary: par)
  case Nil
  then show ?case by simp
next
  case (Cons sk sks)
  show ?case
  proof (cases "sk = ''common''")
    case True
    have "\<exists>par'. merge_sections sks par = Inr par' \<and>
           map_of par' ''common'' = Some com \<and>
           dom (map_of par') = dom (map_of par) \<and>
           (\<forall>sk sec. map_of par sk = Some sec \<longrightarrow>
              (\<exists>sec'. map_of par' sk = Some sec' \<and>
                 map_of sec' = (if sk \<in> set sks \<and> sk \<noteq> ''common''
                                then map_of com ++ map_of sec else map_of sec)))"
      using Cons.prems by (intro Cons.IH) simp_all
    then obtain par' where r: "merge_sections sks par = Inr par'"
      "map_of par' ''common'' = Some com" "dom (map_of par') = dom (map_of par)"
      and each: "\<And>s sec. map_of par s = Some sec \<Longrightarrow>
              (\<exists>sec'. map_of par' s = Some sec' \<and>
                 map_of sec' = (if s \<in> set sks \<and> s \<noteq> ''common''
                                then map_of com ++ map_of sec else map_of sec))" by blast
    have run: "merge_sections (sk # sks) par = Inr par'" using True r(1) by simp
    have "\<exists>sec'. map_of par' s = Some sec' \<and>
                 map_of sec' = (if s \<in> set (sk # sks) \<and> s \<noteq> ''common''
                                then map_of com ++ map_of sec else map_of sec)"
      if s: "map_of par s = Some sec" for s sec
      using each [OF s] True by auto
    then show ?thesis using run r(2,3) by blast
  next
    case False
    from Cons.prems(2) obtain sec0 where sec0: "map_of par sk = Some sec0" by auto
    have sub: "set (map fst com) \<subseteq> dom (map_of com)"
      by (simp add: dom_map_of_conv_image_fst)
    from merge_keys_result [OF Cons.prems(1) sec0 False sub]
    obtain par1 sec1 where r1: "merge_keys sk (map fst com) par = Inr par1"
      "map_of par1 = (map_of par)(sk \<mapsto> sec1)"
      and "map_of sec1 = (map_of com |` set (map fst com)) ++ map_of sec0"
      by blast
    then have r13: "map_of sec1 = map_of com ++ map_of sec0"
      by (simp only: restrict_keys)
    have c1: "map_of par1 ''common'' = Some com" using r1(2) False Cons.prems(1) by simp
    have d1: "dom (map_of par1) = dom (map_of par)" using r1(2) sec0 by auto
    have "\<exists>par'. merge_sections sks par1 = Inr par' \<and>
           map_of par' ''common'' = Some com \<and>
           dom (map_of par') = dom (map_of par1) \<and>
           (\<forall>sk sec. map_of par1 sk = Some sec \<longrightarrow>
              (\<exists>sec'. map_of par' sk = Some sec' \<and>
                 map_of sec' = (if sk \<in> set sks \<and> sk \<noteq> ''common''
                                then map_of com ++ map_of sec else map_of sec)))"
      using Cons.prems(2) c1 d1 by (intro Cons.IH) simp_all
    then obtain par' where r: "merge_sections sks par1 = Inr par'"
      "map_of par' ''common'' = Some com" "dom (map_of par') = dom (map_of par1)"
      and each: "\<And>s sec. map_of par1 s = Some sec \<Longrightarrow>
              (\<exists>sec'. map_of par' s = Some sec' \<and>
                 map_of sec' = (if s \<in> set sks \<and> s \<noteq> ''common''
                                then map_of com ++ map_of sec else map_of sec))" by blast
    have run: "merge_sections (sk # sks) par = Inr par'"
      using False r(1) r1(1) Cons.prems(1) by (simp add: getitem_Some)
    have idem: "map_of com ++ (map_of com ++ map_of sec0) = map_of com ++ map_of sec0"
      by (auto simp: map_add_def fun_eq_iff split: option.splits)
    have "\<exists>sec'. map_of par' s = Some sec' \<and>
                 map_of sec' = (if s \<in> set (sk # sks) \<and> s \<noteq> ''common''
                                then map_of com ++ map_of sec else map_of sec)"
      if s: "map_of par s = Some sec" for s sec
    proof (cases "s = sk")
      case True
      then have "sec = sec0" using s sec0 by simp
      moreover have "map_of par1 sk = Some sec1" using r1(2) by simp
      ultimately show ?thesis using each [of sk sec1] True False r13 idem by auto
    next
      case ne: False
      then have "map_of par1 s = Some sec" using r1(2) s by simp
      then show ?thesis using each [of s sec] ne by auto
    qed
    then show ?thesis using run r(2,3) d1 by (intro exI [of _ par']) simp
  qed
qed

text \<open>The merge on the table of the notebook: both links inherit the distance.\<close>

lemma merge_literal: "merge_common par_literal = Inr par_merged"
  by (simp add: merge_common_def par_literal_def par_merged_def par_common_def par_uplink_def
      par_downlink_def getitem_def)

text \<open>
  Claim C6. For every parameter table with a \<^verbatim>\<open>'common'\<close> section the merge loop ends
  without an exception; it leaves the \<^verbatim>\<open>'common'\<close> section as it was and keeps the set
  of sections; and every other section then has every key of \<^verbatim>\<open>'common'\<close> and still
  maps each key it had before to the value it had before.
\<close>

theorem merge_common_defaults:
  assumes "map_of par ''common'' = Some com"
  shows "\<exists>par'. merge_common par = Inr par' \<and>
           map_of par' ''common'' = Some com \<and>
           dom (map_of par') = dom (map_of par) \<and>
           (\<forall>sk sec. sk \<noteq> ''common'' \<and> map_of par sk = Some sec \<longrightarrow>
              (\<exists>sec'. map_of par' sk = Some sec' \<and>
                 dom (map_of com) \<subseteq> dom (map_of sec') \<and>
                 (\<forall>k v. map_of sec k = Some v \<longrightarrow> map_of sec' k = Some v)))"
proof -
  have "set (map fst par) \<subseteq> dom (map_of par)" by (simp add: dom_map_of_conv_image_fst)
  from merge_sections_result [OF assms this]
  obtain par' where r: "merge_sections (map fst par) par = Inr par'"
      "map_of par' ''common'' = Some com" "dom (map_of par') = dom (map_of par)"
      and each: "\<And>s sec. map_of par s = Some sec \<Longrightarrow>
              (\<exists>sec'. map_of par' s = Some sec' \<and>
                 map_of sec' = (if s \<in> set (map fst par) \<and> s \<noteq> ''common''
                                then map_of com ++ map_of sec else map_of sec))" by blast
  have "\<exists>sec'. map_of par' s = Some sec' \<and>
                 dom (map_of com) \<subseteq> dom (map_of sec') \<and>
                 (\<forall>k v. map_of sec k = Some v \<longrightarrow> map_of sec' k = Some v)"
    if s: "s \<noteq> ''common''" "map_of par s = Some sec" for s sec
  proof -
    have "s \<in> set (map fst par)" using s(2) by (metis map_of_eq_None_iff option.distinct(1) set_map)
    with each [OF s(2)] s(1) obtain sec' where
      "map_of par' s = Some sec'" "map_of sec' = map_of com ++ map_of sec" by auto
    then show ?thesis by (auto simp: map_add_def split: option.splits)
  qed
  then show ?thesis using r unfolding merge_common_def by auto
qed

theorem merge_common_defaults_witness:
  "\<exists>par' sec'. merge_common par_literal = Inr par' \<and>
     map_of par' ''common'' = Some par_common \<and>
     map_of par' ''uplink'' = Some sec' \<and>
     ''distance'' \<in> dom (map_of sec') \<and>
     map_of sec' ''led_theta'' = Some (Num 20)"
proof -
  have c: "map_of par_literal ''common'' = Some par_common"
    by (simp add: par_literal_def)
  have u: "''uplink'' \<noteq> ''common'' \<and> map_of par_literal ''uplink'' = Some par_uplink"
    by (simp add: par_literal_def)
  from merge_common_defaults [OF c]
  obtain par' where r: "merge_common par_literal = Inr par' \<and>
           map_of par' ''common'' = Some par_common \<and>
           dom (map_of par') = dom (map_of par_literal) \<and>
           (\<forall>sk sec. sk \<noteq> ''common'' \<and> map_of par_literal sk = Some sec \<longrightarrow>
              (\<exists>sec'. map_of par' sk = Some sec' \<and>
                 dom (map_of par_common) \<subseteq> dom (map_of sec') \<and>
                 (\<forall>k v. map_of sec k = Some v \<longrightarrow> map_of sec' k = Some v)))" ..
  note each = r [THEN conjunct2, THEN conjunct2, THEN conjunct2, THEN spec, THEN spec,
      THEN mp, OF u]
  then obtain sec' where s: "map_of par' ''uplink'' = Some sec' \<and>
                 dom (map_of par_common) \<subseteq> dom (map_of sec') \<and>
                 (\<forall>k v. map_of par_uplink k = Some v \<longrightarrow> map_of sec' k = Some v)" ..
  have d: "''distance'' \<in> dom (map_of sec')"
    using s [THEN conjunct2, THEN conjunct1] by (simp add: par_common_def)
  have "map_of par_uplink ''led_theta'' = Some (Num 20)" by (simp add: par_uplink_def)
  then have t: "map_of sec' ''led_theta'' = Some (Num 20)"
    by (rule s [THEN conjunct2, THEN conjunct2, THEN spec, THEN spec, THEN mp])
  show ?thesis
    using r [THEN conjunct1] r [THEN conjunct2, THEN conjunct1] s [THEN conjunct1] d t
    by (intro exI [of _ par'] exI [of _ sec'] conjI)
qed

section \<open>Monotonicity of the solid angle\<close>

text \<open>For a positive distance the solid angle is defined, whatever the side lengths.\<close>

lemma angle_norm_defined:
  assumes "0 < d"
  shows "angle_norm a b d = Inr (4 * arctan (a * b / (2 * d * sqrt (4 * d\<^sup>2 + a\<^sup>2 + b\<^sup>2))))"
proof -
  have pos: "0 < 4 * d\<^sup>2 + a\<^sup>2 + b\<^sup>2"
    using assms by (simp add: add_pos_nonneg)
  then have "2 * d * sqrt (4 * d\<^sup>2 + a\<^sup>2 + b\<^sup>2) \<noteq> 0" using assms by simp
  moreover have "\<not> 4 * d\<^sup>2 + a\<^sup>2 + b\<^sup>2 < 0" using pos by simp
  ultimately show ?thesis unfolding angle_norm_def Let_def by (simp only: if_False)
qed

lemma tangent_decreasing_in_d:
  fixes s d1 d2 :: real
  assumes "0 < s" and "0 < d1" and "d1 < d2"
  shows "s * s / (2 * d2 * sqrt (4 * d2\<^sup>2 + s\<^sup>2 + s\<^sup>2))
       < s * s / (2 * d1 * sqrt (4 * d1\<^sup>2 + s\<^sup>2 + s\<^sup>2))"
proof -
  have sq: "d1\<^sup>2 < d2\<^sup>2" using assms by (simp add: power_strict_mono)
  have p1: "0 < 4 * d1\<^sup>2 + s\<^sup>2 + s\<^sup>2" using assms by (simp add: add_pos_nonneg)
  have r: "sqrt (4 * d1\<^sup>2 + s\<^sup>2 + s\<^sup>2) < sqrt (4 * d2\<^sup>2 + s\<^sup>2 + s\<^sup>2)"
    using sq by simp
  have r1: "0 < sqrt (4 * d1\<^sup>2 + s\<^sup>2 + s\<^sup>2)" using p1 by simp
  have "d1 * sqrt (4 * d1\<^sup>2 + s\<^sup>2 + s\<^sup>2) < d2 * sqrt (4 * d2\<^sup>2 + s\<^sup>2 + s\<^sup>2)"
    using assms r r1 by (intro mult_strict_mono) simp_all
  then have den: "2 * d1 * sqrt (4 * d1\<^sup>2 + s\<^sup>2 + s\<^sup>2) < 2 * d2 * sqrt (4 * d2\<^sup>2 + s\<^sup>2 + s\<^sup>2)"
    by simp
  have den1: "0 < 2 * d1 * sqrt (4 * d1\<^sup>2 + s\<^sup>2 + s\<^sup>2)" using assms r1 by simp
  then have den2: "0 < 2 * d2 * sqrt (4 * d2\<^sup>2 + s\<^sup>2 + s\<^sup>2)" using den by linarith
  have ss: "0 < s * s" using assms by simp
  show ?thesis
    by (rule divide_strict_left_mono [OF den ss mult_pos_pos [OF den2 den1]])
qed

lemma square_over_root:
  fixes t c :: real
  assumes "0 \<le> t" and "0 < c + 2 * t"
  shows "t / sqrt (c + 2 * t) = sqrt (t\<^sup>2 / (c + 2 * t))"
  using assms by (simp add: real_sqrt_divide)

lemma ratio_increasing:
  fixes t1 t2 c :: real
  assumes "0 < c" and "0 < t1" and "t1 < t2"
  shows "t1\<^sup>2 / (c + 2 * t1) < t2\<^sup>2 / (c + 2 * t2)"
proof -
  have a: "c * t1\<^sup>2 < c * t2\<^sup>2" using assms by (simp add: power_strict_mono)
  have "t1 * (t1 * t2) < t2 * (t1 * t2)" using assms by (intro mult_strict_right_mono) simp_all
  then have b: "2 * t1\<^sup>2 * t2 < 2 * t2\<^sup>2 * t1" by (simp add: power2_eq_square mult_ac)
  have "t1\<^sup>2 * (c + 2 * t2) < t2\<^sup>2 * (c + 2 * t1)"
    using a b by (simp add: algebra_simps)
  moreover have "0 < c + 2 * t1" "0 < c + 2 * t2" using assms by simp_all
  ultimately show ?thesis by (simp add: divide_simps)
qed

lemma tangent_increasing_in_s:
  fixes s1 s2 d :: real
  assumes "0 < d" and "0 < s1" and "s1 < s2"
  shows "s1 * s1 / (2 * d * sqrt (4 * d\<^sup>2 + s1\<^sup>2 + s1\<^sup>2))
       < s2 * s2 / (2 * d * sqrt (4 * d\<^sup>2 + s2\<^sup>2 + s2\<^sup>2))"
proof -
  let ?c = "4 * d\<^sup>2"
  have c: "0 < ?c" using assms by simp
  have t: "0 < s1\<^sup>2" "s1\<^sup>2 < s2\<^sup>2" using assms by (simp_all add: power_strict_mono)
  have "sqrt ((s1\<^sup>2)\<^sup>2 / (?c + 2 * s1\<^sup>2)) < sqrt ((s2\<^sup>2)\<^sup>2 / (?c + 2 * s2\<^sup>2))"
    using ratio_increasing [OF c t] by simp
  moreover have "s1\<^sup>2 / sqrt (?c + 2 * s1\<^sup>2) = sqrt ((s1\<^sup>2)\<^sup>2 / (?c + 2 * s1\<^sup>2))"
    using c by (intro square_over_root) (simp_all add: add_pos_nonneg)
  moreover have "s2\<^sup>2 / sqrt (?c + 2 * s2\<^sup>2) = sqrt ((s2\<^sup>2)\<^sup>2 / (?c + 2 * s2\<^sup>2))"
    using c by (intro square_over_root) (simp_all add: add_pos_nonneg)
  ultimately have "s1\<^sup>2 / sqrt (?c + 2 * s1\<^sup>2) < s2\<^sup>2 / sqrt (?c + 2 * s2\<^sup>2)"
    by simp
  moreover have "0 < 2 * d" using assms by simp
  ultimately have "s1\<^sup>2 / sqrt (?c + 2 * s1\<^sup>2) / (2 * d) < s2\<^sup>2 / sqrt (?c + 2 * s2\<^sup>2) / (2 * d)"
    by (rule divide_strict_right_mono)
  moreover have "s * s / (2 * d * sqrt (4 * d\<^sup>2 + s\<^sup>2 + s\<^sup>2)) = s\<^sup>2 / sqrt (?c + 2 * s\<^sup>2) / (2 * d)"
    for s :: real
    by (simp add: power2_eq_square)
  ultimately show ?thesis by simp
qed

text \<open>
  Claim C2. For a fixed side \<open>s > 0\<close> the computed solid angle strictly decreases as the
  distance grows over \<open>d > 0\<close>; for a fixed distance \<open>d > 0\<close> it strictly increases as
  the side grows over \<open>s > 0\<close>. In both cases the computation raises no exception.
\<close>

theorem angle_norm_monotone:
  "(0 < s \<and> 0 < d1 \<and> d1 < d2 \<longrightarrow>
      (\<exists>w1 w2. angle_norm s s d1 = Inr w1 \<and> angle_norm s s d2 = Inr w2 \<and> w2 < w1)) \<and>
   (0 < d \<and> 0 < s1 \<and> s1 < s2 \<longrightarrow>
      (\<exists>w1 w2. angle_norm s1 s1 d = Inr w1 \<and> angle_norm s2 s2 d = Inr w2 \<and> w1 < w2))"
proof (intro conjI impI)
  assume h: "0 < s \<and> 0 < d1 \<and> d1 < d2"
  then have "0 < d2" by simp
  then show "\<exists>w1 w2. angle_norm s s d1 = Inr w1 \<and> angle_norm s s d2 = Inr w2 \<and> w2 < w1"
    using h tangent_decreasing_in_d [of s d1 d2]
    by (simp add: angle_norm_defined arctan_less_iff)
next
  assume h: "0 < d \<and> 0 < s1 \<and> s1 < s2"
  then show "\<exists>w1 w2. angle_norm s1 s1 d = Inr w1 \<and> angle_norm s2 s2 d = Inr w2 \<and> w1 < w2"
    using tangent_increasing_in_s [of d s1 s2]
    by (simp add: angle_norm_defined arctan_less_iff)
qed

theorem angle_norm_monotone_witness:
  "(\<exists>w1 w2. angle_norm 1 1 1 = Inr w1 \<and> angle_norm 1 1 2 = Inr w2 \<and> w2 < w1) \<and>
   (\<exists>w1 w2. angle_norm 1 1 1 = Inr w1 \<and> angle_norm 2 2 1 = Inr w2 \<and> w1 < w2)"
  using angle_norm_monotone [of 1 1 2 1 1 2] by simp

section \<open>The photocurrent\<close>

text \<open>Reading a table after one of its numbers has been replaced.\<close>

lemma getnum_update:
  "getnum (AList.update k (Num r) p) k' = (if k' = k then Inr r else getnum p k')"
  by (simp add: getnum_def getitem_def update_conv')

lemma getitem_update:
  "getitem (AList.update k v d) k' = (if k' = k then Inr v else getitem d k')"
  by (simp add: getitem_def update_conv')

text \<open>The uplink section after the start-up merge, and the solid angle at the notebook's distance.\<close>


lemma uplink_lookups:
  "getnum (par_uplink @ [(''distance'', Num (10 / 10 ^ 3))]) ''distance'' = Inr (10 / 10 ^ 3)"
  "getnum (par_uplink @ [(''distance'', Num (10 / 10 ^ 3))]) ''led_Ie'' = Inr (145.0 / 10 ^ 3 / 100 * 20)"
  "getnum (par_uplink @ [(''distance'', Num (10 / 10 ^ 3))]) ''led_current'' = Inr (20 / 10 ^ 3)"
  "getnum (par_uplink @ [(''distance'', Num (10 / 10 ^ 3))]) ''pd_eff'' = Inr (32 / 10 ^ 6)"
  "getnum (par_uplink @ [(''distance'', Num (10 / 10 ^ 3))]) ''pd_Ir0'' = Inr (30 / 10 ^ 9)"
  by (simp_all add: getnum_def getitem_def par_uplink_def)

lemma angle_norm_notebook:
  "angle_norm (1 / 10 ^ 2) (1 / 10 ^ 2) (10 / 10 ^ 3)
     = Inr (4 * arctan (1 / 10 ^ 4 / (2 * (1 / 100) * sqrt (4 / 10 ^ 4 + 2 / 10 ^ 4))))"
proof -
  have "(0::real) < 10 / 10 ^ 3" by simp
  from angle_norm_defined [OF this, of "1 / 10 ^ 2" "1 / 10 ^ 2"]
  show ?thesis by (simp add: power2_eq_square)
qed

text \<open>
  Claim C3. The photocurrent is \<open>pd_eff * led_Ie * (led_current / 20e-3) * angle_norm\<close>.
  Replacing the drive current \<^verbatim>\<open>led_current\<close> by \<open>k\<close> times its value, everything else
  as it was, multiplies the photocurrent by \<open>k\<close>, and so does replacing the efficiency
  \<^verbatim>\<open>pd_eff\<close> by \<open>k\<close> times its value, for every factor \<open>k\<close>; a run that raised an
  exception before raises the same exception after.
\<close>

theorem current_pd_linear:
  "(getnum p ''distance'' = Inr d \<and> angle_norm (1 / 10 ^ 2) (1 / 10 ^ 2) d = Inr w \<and>
    getnum p ''led_Ie'' = Inr ie \<and> getnum p ''led_current'' = Inr c \<and>
    getnum p ''pd_eff'' = Inr e \<longrightarrow>
      current_pd p = Inr (e * ie * (c / (20 / 10 ^ 3)) * w)) \<and>
   (getnum p ''led_current'' = Inr c \<longrightarrow>
      current_pd (AList.update ''led_current'' (Num (k * c)) p)
        = map_sum id (\<lambda>cur. k * cur) (current_pd p)) \<and>
   (getnum p ''pd_eff'' = Inr e \<longrightarrow>
      current_pd (AList.update ''pd_eff'' (Num (k * e)) p)
        = map_sum id (\<lambda>cur. k * cur) (current_pd p))"
proof (intro conjI impI)
  assume "getnum p ''distance'' = Inr d \<and> angle_norm (1 / 10 ^ 2) (1 / 10 ^ 2) d = Inr w \<and>
    getnum p ''led_Ie'' = Inr ie \<and> getnum p ''led_current'' = Inr c \<and>
    getnum p ''pd_eff'' = Inr e"
  then show "current_pd p = Inr (e * ie * (c / (20 / 10 ^ 3)) * w)"
    by (simp add: current_pd_def irradiance_pd_def)
next
  assume c: "getnum p ''led_current'' = Inr c"
  show "current_pd (AList.update ''led_current'' (Num (k * c)) p)
        = map_sum id (\<lambda>cur. k * cur) (current_pd p)"
    using c
    by (simp add: current_pd_def irradiance_pd_def getnum_update and_then_def
        split: sum.splits)
next
  assume e: "getnum p ''pd_eff'' = Inr e"
  show "current_pd (AList.update ''pd_eff'' (Num (k * e)) p)
        = map_sum id (\<lambda>cur. k * cur) (current_pd p)"
    using e
    by (simp add: current_pd_def irradiance_pd_def getnum_update and_then_def
        split: sum.splits)
qed


theorem current_pd_linear_witness:
  "current_pd (par_uplink @ [(''distance'', Num (10 / 10 ^ 3))])
     = Inr (32 / 10 ^ 6 * (145.0 / 10 ^ 3 / 100 * 20) * (20 / 10 ^ 3 / (20 / 10 ^ 3))
          * (4 * arctan (1 / 10 ^ 4 / (2 * (1 / 100) * sqrt (4 / 10 ^ 4 + 2 / 10 ^ 4))))) \<and>
   current_pd (AList.update ''led_current'' (Num (3 * (20 / 10 ^ 3)))
       (par_uplink @ [(''distance'', Num (10 / 10 ^ 3))]))
     = map_sum id (\<lambda>cur. 3 * cur) (current_pd (par_uplink @ [(''distance'', Num (10 / 10 ^ 3))])) \<and>
   current_pd (AList.update ''pd_eff'' (Num (3 * (32 / 10 ^ 6)))
       (par_uplink @ [(''distance'', Num (10 / 10 ^ 3))]))
     = map_sum id (\<lambda>cur. 3 * cur) (current_pd (par_uplink @ [(''distance'', Num (10 / 10 ^ 3))]))"
  using current_pd_linear [of "par_uplink @ [(''distance'', Num (10 / 10 ^ 3))]"
      "10 / 10 ^ 3" "4 * arctan (1 / 10 ^ 4 / (2 * (1 / 100) * sqrt (4 / 10 ^ 4 + 2 / 10 ^ 4)))"
      "145.0 / 10 ^ 3 / 100 * 20" "20 / 10 ^ 3" "32 / 10 ^ 6" 3]
  by (simp only: uplink_lookups angle_norm_notebook simp_thms)

section \<open>Runs of the photodiode calculator on positive numbers\<close>

lemma angle_norm_positive:
  assumes "0 < d" and "0 < a" and "0 < b" and "angle_norm a b d = Inr w"
  shows "0 < w"
proof -
  have "0 < 4 * d\<^sup>2 + a\<^sup>2 + b\<^sup>2" using assms(1) by (simp add: add_pos_nonneg)
  then have "0 < 2 * d * sqrt (4 * d\<^sup>2 + a\<^sup>2 + b\<^sup>2)" using assms(1) by simp
  moreover have "0 < a * b" using assms(2,3) by simp
  ultimately have "0 < a * b / (2 * d * sqrt (4 * d\<^sup>2 + a\<^sup>2 + b\<^sup>2))"
    by (rule divide_pos_pos [rotated])
  then have "0 < arctan (a * b / (2 * d * sqrt (4 * d\<^sup>2 + a\<^sup>2 + b\<^sup>2)))"
    by (simp only: zero_less_arctan_iff)
  then have "0 < 4 * arctan (a * b / (2 * d * sqrt (4 * d\<^sup>2 + a\<^sup>2 + b\<^sup>2)))"
    by simp
  moreover have "w = 4 * arctan (a * b / (2 * d * sqrt (4 * d\<^sup>2 + a\<^sup>2 + b\<^sup>2)))"
    using assms(4) unfolding angle_norm_defined [OF assms(1)] by simp
  ultimately show ?thesis by simp
qed

text \<open>
  A run on positive intensity, drive current, distance and efficiency: the two currents
  are printed, and the third line is printed unless the dark current is zero.
\<close>

lemma calculate_pd_current_positive:
  assumes up: "getitem par ''uplink'' = Inr p"
    and ie: "getnum p ''led_Ie'' = Inr ie" "0 < ie"
    and lc: "getnum p ''led_current'' = Inr lc" "0 < lc"
    and d: "getnum p ''distance'' = Inr d" "0 < d"
    and e: "getnum p ''pd_eff'' = Inr e" "0 < e"
    and i0: "getnum p ''pd_Ir0'' = Inr i0" "0 \<le> i0"
    and w: "angle_norm (1 / 10 ^ 2) (1 / 10 ^ 2) d = Inr w"
  shows "calculate_pd_current par =
     (if i0 = 0
      then ([F3 (ie * lc / (20 / 10 ^ 3) * w), F3 (e * (ie * lc / (20 / 10 ^ 3) * w) * 10 ^ 6)],
            Some ZeroDivisionError)
      else ([F3 (ie * lc / (20 / 10 ^ 3) * w), F3 (e * (ie * lc / (20 / 10 ^ 3) * w) * 10 ^ 6),
             Repr (20 * log 10 (e * (ie * lc / (20 / 10 ^ 3) * w) / i0))], None))"
proof -
  have wpos: "0 < w" using angle_norm_positive [OF d(2) _ _ w] by simp
  have irr: "irradiance_pd p = Inr (ie * lc / (20 / 10 ^ 3) * w)"
    using ie(1) lc(1) d(1) w by (simp add: irradiance_pd_def)
  have cur: "current_pd p = Inr (e * (ie * lc / (20 / 10 ^ 3) * w))"
    using irr e(1) by (simp add: current_pd_def)
  have pos: "0 < e * (ie * lc / (20 / 10 ^ 3) * w)"
    using ie(2) lc(2) e(2) wpos by simp
  show ?thesis
  proof (cases "i0 = 0")
    case True
    then have "snr_pd p (e * (ie * lc / (20 / 10 ^ 3) * w)) = Inl ZeroDivisionError"
      using i0(1) by (simp add: snr_pd_def)
    then show ?thesis using True up irr cur by (simp add: calculate_pd_current_def)
  next
    case False
    then have "0 < i0" using i0(2) by simp
    then have "\<not> e * (ie * lc / (20 / 10 ^ 3) * w) / i0 \<le> 0"
      using pos by (simp add: not_le)
    then have "snr_pd p (e * (ie * lc / (20 / 10 ^ 3) * w))
        = Inr (20 * log 10 (e * (ie * lc / (20 / 10 ^ 3) * w) / i0))"
      using i0(1) False by (simp add: snr_pd_def)
    then show ?thesis using False up irr cur by (simp add: calculate_pd_current_def)
  qed
qed

lemma merged_uplink:
  "getitem par_merged ''uplink'' = Inr (par_uplink @ [(''distance'', Num (10 / 10 ^ 3))])"
  by (simp add: par_merged_def getitem_def)

text \<open>The run of the notebook: all three lines are printed.\<close>

lemma calculate_pd_current_notebook:
  "calculate_pd_current par_merged =
     ([F3 (145.0 / 10 ^ 3 / 100 * 20 * (20 / 10 ^ 3) / (20 / 10 ^ 3)
            * (4 * arctan (1 / 10 ^ 4 / (2 * (1 / 100) * sqrt (4 / 10 ^ 4 + 2 / 10 ^ 4))))),
       F3 (32 / 10 ^ 6 * (145.0 / 10 ^ 3 / 100 * 20 * (20 / 10 ^ 3) / (20 / 10 ^ 3)
            * (4 * arctan (1 / 10 ^ 4 / (2 * (1 / 100) * sqrt (4 / 10 ^ 4 + 2 / 10 ^ 4)))))
            * 10 ^ 6),
       Repr (20 * log 10 (32 / 10 ^ 6 * (145.0 / 10 ^ 3 / 100 * 20 * (20 / 10 ^ 3) / (20 / 10 ^ 3)
            * (4 * arctan (1 / 10 ^ 4 / (2 * (1 / 100) * sqrt (4 / 10 ^ 4 + 2 / 10 ^ 4)))))
            / (30 / 10 ^ 9)))],
      None)"
proof -
  have ne: "(30 / 10 ^ 9 :: real) \<noteq> 0" by simp
  show ?thesis
    using calculate_pd_current_positive [OF merged_uplink uplink_lookups(2) _
        uplink_lookups(3) _ uplink_lookups(1) _ uplink_lookups(4) _ uplink_lookups(5) _
        angle_norm_notebook]
    by (simp only: ne if_False) simp
qed

section \<open>The signal-to-noise ratio\<close>

lemma irradiance_pd_update_other:
  assumes "k \<noteq> ''distance''" and "k \<noteq> ''led_Ie''" and "k \<noteq> ''led_current''"
  shows "irradiance_pd (AList.update k (Num r) p) = irradiance_pd p"
  using assms by (simp add: irradiance_pd_def getnum_update)

lemma snr_pd_scaled:
  assumes "getnum p ''pd_Ir0'' = Inr i0" and "k \<noteq> 0"
  shows "snr_pd (AList.update ''pd_Ir0'' (Num (k * i0)) p) (k * cur) = snr_pd p cur"
  using assms by (simp add: snr_pd_def getnum_update)

text \<open>
  Claim C4. A run of \<^verbatim>\<open>calculate_pd_current\<close> that ends without an exception prints,
  as its third line, \<open>20 * log 10 (current_pd / pd_Ir0)\<close> for the photocurrent
  \<^verbatim>\<open>current_pd\<close> that it computed and the dark current \<^verbatim>\<open>pd_Ir0\<close> of the table.
  Scaling both by the same \<open>k > 0\<close> (the photocurrent through the efficiency
  \<^verbatim>\<open>pd_eff\<close>) multiplies the printed current by \<open>k\<close> and leaves the printed ratio as it
  was.
\<close>

theorem snr_pd_decibel:
  assumes up: "getitem par ''uplink'' = Inr p"
    and run: "calculate_pd_current par = (out, None)"
  shows "\<exists>irr cur e i0.
     current_pd p = Inr cur \<and> getnum p ''pd_eff'' = Inr e \<and> getnum p ''pd_Ir0'' = Inr i0 \<and>
     out = [F3 irr, F3 (cur * 10 ^ 6), Repr (20 * log 10 (cur / i0))] \<and>
     (\<forall>k. 0 < k \<longrightarrow>
        calculate_pd_current
          (AList.update ''uplink''
             (AList.update ''pd_Ir0'' (Num (k * i0)) (AList.update ''pd_eff'' (Num (k * e)) p))
             par)
        = ([F3 irr, F3 (k * cur * 10 ^ 6), Repr (20 * log 10 (cur / i0))], None))"
proof -
  from run up obtain irr cur snr where
    irr: "irradiance_pd p = Inr irr" and cur: "current_pd p = Inr cur"
    and snr: "snr_pd p cur = Inr snr" and out: "out = [F3 irr, F3 (cur * 10 ^ 6), Repr snr]"
    by (auto simp: calculate_pd_current_def split: sum.splits)
  from cur irr obtain e where e: "getnum p ''pd_eff'' = Inr e" and ce: "cur = e * irr"
    by (auto simp: current_pd_def and_then_def split: sum.splits)
  from snr obtain i0 where i0: "getnum p ''pd_Ir0'' = Inr i0"
    and s: "snr = 20 * log 10 (cur / i0)"
    by (auto simp: snr_pd_def and_then_def split: sum.splits if_splits)
  have scaled: "calculate_pd_current
          (AList.update ''uplink''
             (AList.update ''pd_Ir0'' (Num (k * i0)) (AList.update ''pd_eff'' (Num (k * e)) p))
             par)
        = ([F3 irr, F3 (k * cur * 10 ^ 6), Repr (20 * log 10 (cur / i0))], None)"
    if k: "0 < k" for k
  proof -
    let ?q = "AList.update ''pd_eff'' (Num (k * e)) p"
    let ?p' = "AList.update ''pd_Ir0'' (Num (k * i0)) ?q"
    have up': "getitem (AList.update ''uplink'' ?p' par) ''uplink'' = Inr ?p'"
      by (simp add: getitem_update)
    have irr': "irradiance_pd ?p' = Inr irr"
      using irr by (simp add: irradiance_pd_update_other)
    have cur': "current_pd ?p' = Inr (k * cur)"
      using irr' ce by (simp add: current_pd_def getnum_update)
    have "getnum ?q ''pd_Ir0'' = Inr i0" using i0 by (simp add: getnum_update)
    then have "snr_pd ?p' (k * cur) = snr_pd ?q cur" using k by (intro snr_pd_scaled) simp_all
    also have "\<dots> = snr_pd p cur" by (simp add: snr_pd_def getnum_update)
    finally have snr': "snr_pd ?p' (k * cur) = Inr (20 * log 10 (cur / i0))"
      using snr s by simp
    show ?thesis using up' irr' cur' snr' by (simp add: calculate_pd_current_def)
  qed
  show ?thesis using cur e i0 out s scaled by blast
qed

theorem snr_pd_decibel_witness:
  "\<exists>irr cur.
     calculate_pd_current par_merged
       = ([F3 irr, F3 (cur * 10 ^ 6), Repr (20 * log 10 (cur / (30 / 10 ^ 9)))], None) \<and>
     calculate_pd_current
       (AList.update ''uplink''
          (AList.update ''pd_Ir0'' (Num (2 * (30 / 10 ^ 9)))
             (AList.update ''pd_eff'' (Num (2 * (32 / 10 ^ 6)))
                (par_uplink @ [(''distance'', Num (10 / 10 ^ 3))])))
          par_merged)
       = ([F3 irr, F3 (2 * cur * 10 ^ 6), Repr (20 * log 10 (cur / (30 / 10 ^ 9)))], None)"
proof -
  from snr_pd_decibel [OF merged_uplink calculate_pd_current_notebook]
  obtain irr cur e i0 where
    e: "getnum (par_uplink @ [(''distance'', Num (10 / 10 ^ 3))]) ''pd_eff'' = Inr e"
    and i0: "getnum (par_uplink @ [(''distance'', Num (10 / 10 ^ 3))]) ''pd_Ir0'' = Inr i0"
    and out: "[F3 (145.0 / 10 ^ 3 / 100 * 20 * (20 / 10 ^ 3) / (20 / 10 ^ 3)
            * (4 * arctan (1 / 10 ^ 4 / (2 * (1 / 100) * sqrt (4 / 10 ^ 4 + 2 / 10 ^ 4))))),
       F3 (32 / 10 ^ 6 * (145.0 / 10 ^ 3 / 100 * 20 * (20 / 10 ^ 3) / (20 / 10 ^ 3)
            * (4 * arctan (1 / 10 ^ 4 / (2 * (1 / 100) * sqrt (4 / 10 ^ 4 + 2 / 10 ^ 4)))))
            * 10 ^ 6),
       Repr (20 * log 10 (32 / 10 ^ 6 * (145.0 / 10 ^ 3 / 100 * 20 * (20 / 10 ^ 3) / (20 / 10 ^ 3)
            * (4 * arctan (1 / 10 ^ 4 / (2 * (1 / 100) * sqrt (4 / 10 ^ 4 + 2 / 10 ^ 4)))))
            / (30 / 10 ^ 9)))]
        = [F3 irr, F3 (cur * 10 ^ 6), Repr (20 * log 10 (cur / i0))]"
    and scaled: "\<forall>k. 0 < k \<longrightarrow>
        calculate_pd_current
          (AList.update ''uplink''
             (AList.update ''pd_Ir0'' (Num (k * i0)) (AList.update ''pd_eff'' (Num (k * e))
                (par_uplink @ [(''distance'', Num (10 / 10 ^ 3))])))
             par_merged)
        = ([F3 irr, F3 (k * cur * 10 ^ 6), Repr (20 * log 10 (cur / i0))], None)"
    by (elim exE conjE)
  have e': "e = 32 / 10 ^ 6" using e unfolding uplink_lookups by simp
  have i0': "i0 = 30 / 10 ^ 9" using i0 unfolding uplink_lookups by simp
  have two: "(0::real) < 2" by simp
  have a: "calculate_pd_current par_merged
       = ([F3 irr, F3 (cur * 10 ^ 6), Repr (20 * log 10 (cur / (30 / 10 ^ 9)))], None)"
    unfolding calculate_pd_current_notebook out i0' ..
  have b: "calculate_pd_current
       (AList.update ''uplink''
          (AList.update ''pd_Ir0'' (Num (2 * (30 / 10 ^ 9)))
             (AList.update ''pd_eff'' (Num (2 * (32 / 10 ^ 6)))
                (par_uplink @ [(''distance'', Num (10 / 10 ^ 3))])))
          par_merged)
       = ([F3 irr, F3 (2 * cur * 10 ^ 6), Repr (20 * log 10 (cur / (30 / 10 ^ 9)))], None)"
    using scaled [THEN spec, THEN mp, OF two] unfolding e' i0' .
  show ?thesis using a b by (intro exI [of _ irr] exI [of _ cur] conjI)
qed

section \<open>The irradiance that the notebook prints\<close>

text \<open>
  Bounds of the arc tangent by its Taylor polynomials, from the sign of the derivative of
  the difference, and the rounding of a value that lies strictly between two ties.
\<close>

lemma arctan_lower:
  fixes x :: real
  assumes "0 \<le> x"
  shows "x - x ^ 3 / 3 \<le> arctan x"
proof -
  let ?f = "\<lambda>t::real. arctan t - t + t ^ 3 / 3"
  have "?f 0 \<le> ?f x"
  proof (rule DERIV_nonneg_imp_nondecreasing [OF assms])
    fix t :: real
    have "(?f has_real_derivative (inverse (1 + t\<^sup>2) - 1 + t\<^sup>2)) (at t)"
      by (auto intro!: derivative_eq_intros)
    moreover have "0 \<le> inverse (1 + t\<^sup>2) - 1 + t\<^sup>2"
    proof -
      have p: "0 < 1 + t\<^sup>2" by (simp add: add_pos_nonneg)
      have "inverse (1 + t\<^sup>2) - 1 + t\<^sup>2 = t ^ 4 / (1 + t\<^sup>2)"
        using p by (simp add: field_simps power2_eq_square power4_eq_xxxx)
      then show ?thesis using p by simp
    qed
    ultimately show "\<exists>y. (?f has_real_derivative y) (at t) \<and> 0 \<le> y" by blast
  qed
  then show ?thesis by simp
qed

lemma arctan_upper:
  fixes x :: real
  assumes "0 \<le> x"
  shows "arctan x \<le> x - x ^ 3 / 3 + x ^ 5 / 5"
proof -
  let ?g = "\<lambda>t::real. t - t ^ 3 / 3 + t ^ 5 / 5 - arctan t"
  have "?g 0 \<le> ?g x"
  proof (rule DERIV_nonneg_imp_nondecreasing [OF assms])
    fix t :: real
    have "(?g has_real_derivative (1 - t\<^sup>2 + t ^ 4 - inverse (1 + t\<^sup>2))) (at t)"
      by (auto intro!: derivative_eq_intros)
    moreover have "0 \<le> 1 - t\<^sup>2 + t ^ 4 - inverse (1 + t\<^sup>2)"
    proof -
      have p: "0 < 1 + t\<^sup>2" by (simp add: add_pos_nonneg)
      have "1 - t\<^sup>2 + t ^ 4 - inverse (1 + t\<^sup>2) = t ^ 6 / (1 + t\<^sup>2)"
        using p by (simp add: field_simps power2_eq_square power4_eq_xxxx power_numeral_reduce)
      moreover have "0 \<le> t ^ 6" by simp
      ultimately show ?thesis using p by simp
    qed
    ultimately show "\<exists>y. (?g has_real_derivative y) (at t) \<and> 0 \<le> y" by blast
  qed
  then show ?thesis by simp
qed

lemma fixed3_between:
  assumes "of_int n - 1 / 2 < v * 1000" and "v * 1000 < of_int n + 1 / 2"
  shows "fixed3 v = n"
proof -
  have fl: "\<lfloor>v * 1000\<rfloor> = n - 1 \<or> \<lfloor>v * 1000\<rfloor> = n"
  proof (cases "v * 1000 < of_int n")
    case True
    then have "\<lfloor>v * 1000\<rfloor> = n - 1" using assms(1) by (intro floor_unique) simp_all
    then show ?thesis ..
  next
    case False
    then have "\<lfloor>v * 1000\<rfloor> = n" using assms(2) by (intro floor_unique) simp_all
    then show ?thesis ..
  qed
  then show ?thesis
  proof
    assume f: "\<lfloor>v * 1000\<rfloor> = n - 1"
    then have "1 / 2 < v * 1000 - of_int (n - 1)" using assms(1) by simp
    then show ?thesis using f by (simp add: fixed3_def Let_def)
  next
    assume f: "\<lfloor>v * 1000\<rfloor> = n"
    then have "v * 1000 - of_int n < 1 / 2" using assms(2) by simp
    then show ?thesis using f by (simp add: fixed3_def Let_def)
  qed
qed

lemma notebook_tangent_bounds:
  "204 / 1000 < (1 / 10 ^ 4 / (2 * (1 / 100) * sqrt (4 / 10 ^ 4 + 2 / 10 ^ 4)) :: real)"
  "(1 / 10 ^ 4 / (2 * (1 / 100) * sqrt (4 / 10 ^ 4 + 2 / 10 ^ 4)) :: real) < 2042 / 10000"
proof -
  let ?r = "sqrt (4 / 10 ^ 4 + 2 / 10 ^ 4) :: real"
  have lo: "2449 / 100000 < ?r" by (rule real_less_rsqrt) (simp add: power2_eq_square)
  have hi: "?r < 245 / 10000" by (rule real_less_lsqrt) (simp_all add: power2_eq_square)
  have pos: "0 < ?r" using lo by linarith
  show "204 / 1000 < (1 / 10 ^ 4 / (2 * (1 / 100) * ?r) :: real)"
    using hi pos by (simp add: field_simps)
  show "(1 / 10 ^ 4 / (2 * (1 / 100) * ?r) :: real) < 2042 / 10000"
    using lo pos by (simp add: field_simps)
qed

lemma notebook_arctan_bounds:
  "2011 / 10000 < arctan (1 / 10 ^ 4 / (2 * (1 / 100) * sqrt (4 / 10 ^ 4 + 2 / 10 ^ 4)))"
  "arctan (1 / 10 ^ 4 / (2 * (1 / 100) * sqrt (4 / 10 ^ 4 + 2 / 10 ^ 4))) < 2015 / 10000"
proof -
  let ?x = "1 / 10 ^ 4 / (2 * (1 / 100) * sqrt (4 / 10 ^ 4 + 2 / 10 ^ 4)) :: real"
  have "(2011 / 10000 :: real) < 204 / 1000 - (204 / 1000) ^ 3 / 3" by (simp add: power3_eq_cube)
  also have "\<dots> \<le> arctan (204 / 1000)" by (rule arctan_lower) simp
  also have "\<dots> < arctan ?x" using notebook_tangent_bounds(1) by (simp only: arctan_less_iff)
  finally show "2011 / 10000 < arctan ?x" .
  have "arctan ?x < arctan (2042 / 10000)"
    using notebook_tangent_bounds(2) by (simp only: arctan_less_iff)
  also have "\<dots> \<le> 2042 / 10000 - (2042 / 10000) ^ 3 / 3 + (2042 / 10000) ^ 5 / 5"
    by (rule arctan_upper) simp
  also have "\<dots> < (2015 / 10000 :: real)" by (simp add: power3_eq_cube power_numeral_reduce)
  finally show "arctan ?x < 2015 / 10000" .
qed


text \<open>
  Claim C9. With the constants of the notebook (distance and side 10 mm, radiant intensity
  \<open>145.0e-3 / 100 * 20 = 0.029\<close>, drive current 20 mA) the start-up merge yields the
  table on which \<^verbatim>\<open>calculate_pd_current\<close> runs without an exception, the irradiance it
  prints first is \<open>0.029 * 4 * arctan (1e-4 / (2 * 0.01 * sqrt (4e-4 + 2e-4)))\<close>, and
  \<^verbatim>\<open>:.3f\<close> prints it as 0.023.
\<close>

theorem notebook_irradiance:
  "\<exists>cur snr.
     merge_common par_literal = Inr par_merged \<and>
     calculate_pd_current par_merged
       = ([F3 (0.029 * (4 * arctan (1 / 10 ^ 4 / (2 * 0.01 * sqrt (4 / 10 ^ 4 + 2 / 10 ^ 4))))),
           F3 cur, Repr snr], None) \<and>
     fixed3 (0.029 * (4 * arctan (1 / 10 ^ 4 / (2 * 0.01 * sqrt (4 / 10 ^ 4 + 2 / 10 ^ 4)))))
       = 23"
proof -
  let ?w = "arctan (1 / 10 ^ 4 / (2 * (1 / 100) * sqrt (4 / 10 ^ 4 + 2 / 10 ^ 4)))"
  have eq: "(0.029 * (4 * arctan (1 / 10 ^ 4 / (2 * 0.01 * sqrt (4 / 10 ^ 4 + 2 / 10 ^ 4)))) :: real)
      = 145.0 / 10 ^ 3 / 100 * 20 * (20 / 10 ^ 3) / (20 / 10 ^ 3) * (4 * ?w)"
    by simp
  have "of_int 23 - 1 / 2 < 145.0 / 10 ^ 3 / 100 * 20 * (20 / 10 ^ 3) / (20 / 10 ^ 3) * (4 * ?w) * 1000"
    using notebook_arctan_bounds(1) by simp
  moreover
  have "145.0 / 10 ^ 3 / 100 * 20 * (20 / 10 ^ 3) / (20 / 10 ^ 3) * (4 * ?w) * 1000 < of_int 23 + 1 / 2"
    using notebook_arctan_bounds(2) by simp
  ultimately
  have "fixed3 (145.0 / 10 ^ 3 / 100 * 20 * (20 / 10 ^ 3) / (20 / 10 ^ 3) * (4 * ?w)) = 23"
    by (rule fixed3_between)
  then show ?thesis
    unfolding eq calculate_pd_current_notebook using merge_literal by blast
qed

section \<open>The spectral overlap and the amplitude of the curves\<close>

lemma Max_scaled:
  fixes k :: real
  assumes "0 < k" and "ys \<noteq> []"
  shows "Max (set (map ((*) k) ys)) = k * Max (set ys)"
proof -
  have "mono ((*) k)" using assms(1) by (simp add: mono_def)
  then have "(*) k (Max (set ys)) = Max ((*) k ` set ys)"
    using assms(2) by (intro mono_Max_commute) simp_all
  then show ?thesis by simp
qed

lemma normalise_scaled:
  assumes "0 < k"
  shows "normalise (SpectralDistribution (map ((*) k) ys) xs)
       = normalise (SpectralDistribution ys xs)"
proof (cases "ys = []")
  case True
  then show ?thesis by (simp add: normalise_def)
next
  case False
  have m: "Max (set (map ((*) k) ys)) = k * Max (set ys)"
    using assms False by (rule Max_scaled)
  have "map (\<lambda>v. v * (1 / (k * Max (set ys)) * 1)) (map ((*) k) ys)
      = map (\<lambda>v. v * (1 / Max (set ys) * 1)) ys"
    using assms by simp
  then show ?thesis
    using False assms unfolding normalise_def sd.case m Let_def by simp
qed

lemma distribution_scaled:
  assumes "0 < k" and "getitem t ''y'' = Inr ys"
  shows "distribution lib (Table (AList.update ''y'' (map ((*) k) ys) t))
       = distribution lib (Table t)"
proof -
  have "spectral_distribution (Table (AList.update ''y'' (map ((*) k) ys) t))
      = and_then (getitem t ''x'') (\<lambda>x. Inr (SpectralDistribution (map ((*) k) ys) x))"
    by (simp add: spectral_distribution_def getitem_update)
  moreover have "spectral_distribution (Table t)
      = and_then (getitem t ''x'') (\<lambda>x. Inr (SpectralDistribution ys x))"
    using assms(2) by (simp add: spectral_distribution_def)
  ultimately show ?thesis
    using normalise_scaled [OF assms(1)]
    by (cases "getitem t ''x''") (simp_all add: distribution_def)
qed

lemma getnum_update_table:
  "getnum (AList.update k (Table t) p) k' = (if k' = k then Inl TypeError else getnum p k')"
  by (simp add: getnum_def getitem_def update_conv')

text \<open>The downlink section with the y-values of one of its curves multiplied by \<open>k\<close>.\<close>

lemma eff_curve_scaled:
  assumes k: "0 < k" and dl: "getitem par ''downlink'' = Inr dl"
    and c: "c = ''als_spectral_response'' \<or> c = ''led_spectral_response''"
    and t: "getitem dl c = Inr (Table t)" and ys: "getitem t ''y'' = Inr ys"
  shows "eff lib (AList.update ''downlink''
            (AList.update c (Table (AList.update ''y'' (map ((*) k) ys) t)) dl) par)
       = eff lib par"
  using c
proof
  assume "c = ''als_spectral_response''"
  then show ?thesis
    using dl t distribution_scaled [OF k ys, of lib]
    by (simp add: eff_def getitem_update)
next
  assume "c = ''led_spectral_response''"
  then show ?thesis
    using dl t distribution_scaled [OF k ys, of lib]
    by (simp add: eff_def getitem_update)
qed

lemma pt_current_curve_scaled:
  assumes k: "0 < k" and dl: "getitem par ''downlink'' = Inr dl"
    and c: "c = ''als_spectral_response'' \<or> c = ''led_spectral_response''"
    and t: "getitem dl c = Inr (Table t)" and ys: "getitem t ''y'' = Inr ys"
  shows "pt_current lib (AList.update ''downlink''
            (AList.update c (Table (AList.update ''y'' (map ((*) k) ys) t)) dl) par)
       = pt_current lib par"
proof -
  let ?dl = "AList.update c (Table (AList.update ''y'' (map ((*) k) ys) t)) dl"
  have n: "getnum ?dl ''distance'' = getnum dl ''distance''"
    "getnum ?dl ''led_IV_typ'' = getnum dl ''led_IV_typ''"
    "getnum ?dl ''als_IPH3'' = getnum dl ''als_IPH3''"
    using c by (auto simp: getnum_update_table)
  show ?thesis
    unfolding pt_current_def eff_curve_scaled [OF assms]
    using dl by (simp add: getitem_update n)
qed

text \<open>The two curves of the notebook, normalised.\<close>

lemma max_led_y: "Max (set led_y) = 0.994"
  by (simp add: led_y_def)

lemma max_als_y: "Max (set als_y) = 99.695"
  by (simp add: als_y_def)

lemma length_curves: "length led_y = 22" "length als_y = 21"
  by (simp_all add: led_y_def als_y_def)

lemma distribution_led:
  "distribution lib (Table led_spectral_response)
     = Inr (interpolate lib (SpectralDistribution (map (\<lambda>v. v * (1 / 0.994 * 1)) led_y) led_x))"
proof -
  have "led_y \<noteq> []" using length_curves(1) by auto
  then have "normalise (SpectralDistribution led_y led_x)
      = Inr (SpectralDistribution (map (\<lambda>v. v * (1 / 0.994 * 1)) led_y) led_x)"
    unfolding normalise_def sd.case Let_def max_led_y by simp
  then show ?thesis
    by (simp add: distribution_def spectral_distribution_def led_spectral_response_def
        getitem_def)
qed

lemma distribution_als:
  "distribution lib (Table als_spectral_response)
     = Inr (interpolate lib (SpectralDistribution (map (\<lambda>v. v * (1 / 99.695 * 1)) als_y) als_x))"
proof -
  have "als_y \<noteq> []" using length_curves(2) by auto
  then have "normalise (SpectralDistribution als_y als_x)
      = Inr (SpectralDistribution (map (\<lambda>v. v * (1 / 99.695 * 1)) als_y) als_x)"
    unfolding normalise_def sd.case Let_def max_als_y by simp
  then show ?thesis
    by (simp add: distribution_def spectral_distribution_def als_spectral_response_def
        getitem_def)
qed

lemma merged_downlink:
  "getitem par_merged ''downlink'' = Inr (par_downlink @ [(''distance'', Num (10 / 10 ^ 3))])"
  by (simp add: par_merged_def getitem_def)

lemma downlink_lookups:
  "getitem (par_downlink @ [(''distance'', Num (10 / 10 ^ 3))]) ''als_spectral_response''
     = Inr (Table als_spectral_response)"
  "getitem (par_downlink @ [(''distance'', Num (10 / 10 ^ 3))]) ''led_spectral_response''
     = Inr (Table led_spectral_response)"
  "getnum (par_downlink @ [(''distance'', Num (10 / 10 ^ 3))]) ''distance'' = Inr (10 / 10 ^ 3)"
  "getnum (par_downlink @ [(''distance'', Num (10 / 10 ^ 3))]) ''led_IV_typ'' = Inr (60 / 10 ^ 3)"
  "getnum (par_downlink @ [(''distance'', Num (10 / 10 ^ 3))]) ''als_IPH3'' = Inr (520 / 10 ^ 6)"
  by (simp_all add: getnum_def getitem_def par_downlink_def)

lemma eff_notebook:
  "eff lib par_merged = Inr (luminous_efficiency lib
     (interpolate lib (SpectralDistribution (map (\<lambda>v. v * (1 / 0.994 * 1)) led_y) led_x))
     (Some (interpolate lib (SpectralDistribution (map (\<lambda>v. v * (1 / 99.695 * 1)) als_y) als_x))))"
  unfolding eff_def merged_downlink and_then_Inr downlink_lookups distribution_led
    distribution_als ..

text \<open>
  Claim C8. In the first definition of \<^verbatim>\<open>calculate_pt_current\<close> the efficiency
  \<^verbatim>\<open>eff\<close>, and with it everything the run prints or raises, stays the same when all
  y-values of the phototransistor curve or all y-values of the LED curve are multiplied by
  a factor \<open>k > 0\<close>: both curves are normalised before anything else reads them. This holds
  for every behaviour of the library's interpolation and efficiency integral.
\<close>

theorem eff_amplitude_invariant:
  assumes "0 < k" and "getitem par ''downlink'' = Inr dl"
    and "c = ''als_spectral_response'' \<or> c = ''led_spectral_response''"
    and "getitem dl c = Inr (Table t)" and "getitem t ''y'' = Inr ys"
  shows "eff lib (AList.update ''downlink''
            (AList.update c (Table (AList.update ''y'' (map ((*) k) ys) t)) dl) par)
         = eff lib par \<and>
       calculate_pt_current lib (AList.update ''downlink''
            (AList.update c (Table (AList.update ''y'' (map ((*) k) ys) t)) dl) par)
         = calculate_pt_current lib par"
  using eff_curve_scaled [OF assms] pt_current_curve_scaled [OF assms]
  by (simp add: calculate_pt_current_def)

theorem eff_amplitude_invariant_witness:
  "eff lib_example (AList.update ''downlink''
      (AList.update ''led_spectral_response''
         (Table (AList.update ''y'' (map ((*) 2) led_y) led_spectral_response))
         (par_downlink @ [(''distance'', Num (10 / 10 ^ 3))])) par_merged)
     = Inr (luminous_efficiency lib_example
        (interpolate lib_example
           (SpectralDistribution (map (\<lambda>v. v * (1 / 0.994 * 1)) led_y) led_x))
        (Some (interpolate lib_example
           (SpectralDistribution (map (\<lambda>v. v * (1 / 99.695 * 1)) als_y) als_x)))) \<and>
   calculate_pt_current lib_example (AList.update ''downlink''
      (AList.update ''led_spectral_response''
         (Table (AList.update ''y'' (map ((*) 2) led_y) led_spectral_response))
         (par_downlink @ [(''distance'', Num (10 / 10 ^ 3))])) par_merged)
     = calculate_pt_current lib_example par_merged \<and>
   calculate_pt_current lib_example (AList.update ''downlink''
      (AList.update ''als_spectral_response''
         (Table (AList.update ''y'' (map ((*) 3) als_y) als_spectral_response))
         (par_downlink @ [(''distance'', Num (10 / 10 ^ 3))])) par_merged)
     = calculate_pt_current lib_example par_merged"
proof -
  have k: "(0::real) < 2" and k': "(0::real) < 3" by simp_all
  have c: "''led_spectral_response'' = ''als_spectral_response'' \<or>
      ''led_spectral_response'' = ''led_spectral_response''" by simp
  have c': "''als_spectral_response'' = ''als_spectral_response'' \<or>
      ''als_spectral_response'' = ''led_spectral_response''" by simp
  have y: "getitem led_spectral_response ''y'' = Inr led_y"
    by (simp add: led_spectral_response_def getitem_def)
  have y': "getitem als_spectral_response ''y'' = Inr als_y"
    by (simp add: als_spectral_response_def getitem_def)
  show ?thesis
    using eff_amplitude_invariant [OF k merged_downlink c downlink_lookups(2) y, of lib_example]
      eff_amplitude_invariant [OF k' merged_downlink c' downlink_lookups(1) y', of lib_example]
    unfolding eff_notebook by (intro conjI) (elim conjE, assumption)+
qed

section \<open>The second definition of the phototransistor calculator\<close>

text \<open>The cells before the last one leave the state \<^const>\<open>notebook_globals\<close>.\<close>

lemma notebook_cells: "and_then cell_par cell_spec = Inr notebook_globals"
proof -
  have a: "cell_par = Inr \<lparr>gpar = par_merged, gspec = None\<rparr>"
    unfolding cell_par_def merge_literal and_then_Inr ..
  have b: "cell_spec \<lparr>gpar = par_merged, gspec = None\<rparr> = Inr notebook_globals"
    by (simp add: cell_spec_def getitem_def par_merged_def par_downlink_def
        notebook_globals_def)
  show ?thesis unfolding a and_then_Inr b ..
qed

lemma sigma_unused:
  "power_per_area (lib\<lparr>sigma := s\<rparr>) = 1.0 * s * 2856 ^ 4"
  "irr_mw_per_cm2 (lib\<lparr>sigma := s\<rparr>) = irr_mw_per_cm2 lib"
  "distribution (lib\<lparr>sigma := s\<rparr>) spec = distribution lib spec"
  by (simp_all add: power_per_area_def irr_mw_per_cm2_def distribution_def)

lemma bb_irradiance_value:
  assumes "bb_irradiance lib g = Inr irr"
  shows "luminous_efficacy_A lib \<noteq> 0 \<and> irr = 1000 / luminous_efficacy_A lib * 10 ^ 3 / 100 / 100"
  using assms
  by (auto simp: bb_irradiance_def irr_mw_per_cm2_def and_then_def Let_def
      split: sum.splits if_splits)

lemma calculate_pt_current_2_run:
  assumes dl: "getitem (gpar g) ''downlink'' = Inr dl"
    and d: "getnum dl ''distance'' = Inr d" "0 < d"
    and a: "getnum dl ''als_IPH3'' = Inr a"
    and s: "gspec g = Some s" and dis: "distribution lib s = Inr dis"
    and eA: "luminous_efficacy_A lib \<noteq> 0"
    and eP: "luminous_efficiency lib dis None \<noteq> 0"
  shows "calculate_pt_current_2 lib g =
     ([F3 (1000 / luminous_efficacy_A lib * 10 ^ 3 / 100 / 100),
       F3 (a / (1000 / luminous_efficacy_A lib * 10 ^ 3 / 100 / 100
                 * luminous_efficiency lib dis None) * 10 ^ 3)], None)"
proof -
  have irr: "bb_irradiance lib g = Inr (1000 / luminous_efficacy_A lib * 10 ^ 3 / 100 / 100)"
    using dl d(1) eA angle_norm_defined [OF d(2), of "1 / 10 ^ 2" "1 / 10 ^ 2"]
    by (simp add: bb_irradiance_def irr_mw_per_cm2_def Let_def)
  have ne: "1000 / luminous_efficacy_A lib * 10 ^ 3 / 100 / 100
      * luminous_efficiency lib dis None \<noteq> 0"
    using eA eP by simp
  have "normalized_response lib g (1000 / luminous_efficacy_A lib * 10 ^ 3 / 100 / 100)
      = Inr (a / (1000 / luminous_efficacy_A lib * 10 ^ 3 / 100 / 100
                 * luminous_efficiency lib dis None))"
    unfolding normalized_response_def s option.case dis and_then_Inr Let_def dl a
    using ne by (simp only: if_False)
  then show ?thesis using irr by (simp add: calculate_pt_current_2_def)
qed


lemma getnum_update_other:
  "k' \<noteq> k \<Longrightarrow> getnum (AList.update k v p) k' = getnum p k'"
  by (simp add: getnum_def getitem_def update_conv')

text \<open>The last cell on the sample library, for a curve in \<^verbatim>\<open>spec\<close>.\<close>

lemma lib_example_fields:
  "luminous_efficacy_A lib_example = 155.8"
  "sigma lib_example = 5.670374419 / 10 ^ 8"
  "interpolate lib_example d = d"
  "luminous_efficiency lib_example (SpectralDistribution ys xs) lef
     = sum_list ys / of_nat (length ys)"
  by (simp_all add: lib_example_def)

lemma example_efficiency:
  "luminous_efficiency lib_example
     (interpolate lib_example
        (SpectralDistribution (map (\<lambda>v. v * (1 / 99.695 * 1)) als_y) als_x)) None
     = 297256 / 697865"
  "luminous_efficiency lib_example
     (interpolate lib_example
        (SpectralDistribution (map (\<lambda>v. v * (1 / 0.994 * 1)) led_y) led_x)) None
     = 2599 / 10934"
  unfolding lib_example_fields by (simp_all add: als_y_def led_y_def)

lemma notebook_globals_fields:
  "gpar notebook_globals = par_merged"
  "gspec notebook_globals = Some (Table als_spectral_response)"
  by (simp_all add: notebook_globals_def)

lemma example_run:
  assumes "gpar g = par_merged" and "gspec g = Some s"
    and "distribution (lib_example\<lparr>luminous_efficacy_A := e\<rparr>) s = Inr dis"
    and "luminous_efficiency lib_example dis None = q" and "e \<noteq> 0" and "q \<noteq> 0"
  shows "calculate_pt_current_2 (lib_example\<lparr>luminous_efficacy_A := e\<rparr>) g =
     ([F3 (1000 / e * 10 ^ 3 / 100 / 100),
       F3 (520 / 10 ^ 6 / (1000 / e * 10 ^ 3 / 100 / 100 * q) * 10 ^ 3)], None)"
proof -
  have dl: "getitem (gpar g) ''downlink'' = Inr (par_downlink @ [(''distance'', Num (10 / 10 ^ 3))])"
    unfolding assms(1) by (rule merged_downlink)
  have pos: "(0::real) < 10 / 10 ^ 3" by simp
  have eA: "luminous_efficacy_A (lib_example\<lparr>luminous_efficacy_A := e\<rparr>) \<noteq> 0"
    using assms(5) by simp
  have eP: "luminous_efficiency (lib_example\<lparr>luminous_efficacy_A := e\<rparr>) dis None \<noteq> 0"
    using assms(4,6) by simp
  show ?thesis
    using calculate_pt_current_2_run [OF dl downlink_lookups(3) pos downlink_lookups(5)
        assms(2,3) eA eP] assms(4)
    by simp
qed

lemma example_distributions:
  "distribution (lib_example\<lparr>luminous_efficacy_A := e\<rparr>) (Table als_spectral_response)
     = Inr (SpectralDistribution (map (\<lambda>v. v * (1 / 99.695 * 1)) als_y) als_x)"
  "distribution (lib_example\<lparr>luminous_efficacy_A := e\<rparr>) (Table led_spectral_response)
     = Inr (SpectralDistribution (map (\<lambda>v. v * (1 / 0.994 * 1)) led_y) led_x)"
proof -
  have i: "interpolate (lib_example\<lparr>luminous_efficacy_A := e\<rparr>) d = d" for d
    by (simp add: lib_example_def)
  show "distribution (lib_example\<lparr>luminous_efficacy_A := e\<rparr>) (Table als_spectral_response)
     = Inr (SpectralDistribution (map (\<lambda>v. v * (1 / 99.695 * 1)) als_y) als_x)"
    unfolding distribution_als i ..
  show "distribution (lib_example\<lparr>luminous_efficacy_A := e\<rparr>) (Table led_spectral_response)
     = Inr (SpectralDistribution (map (\<lambda>v. v * (1 / 0.994 * 1)) led_y) led_x)"
    unfolding distribution_led i ..
qed

lemma example_efficiencies:
  "luminous_efficiency lib_example
     (SpectralDistribution (map (\<lambda>v. v * (1 / 99.695 * 1)) als_y) als_x) None
     = 297256 / 697865"
  "luminous_efficiency lib_example
     (SpectralDistribution (map (\<lambda>v. v * (1 / 0.994 * 1)) led_y) led_x) None
     = 2599 / 10934"
  using example_efficiency unfolding lib_example_fields(3) .

lemma lib_example_efficacy: "lib_example\<lparr>luminous_efficacy_A := 155.8\<rparr> = lib_example"
  by (simp add: lib_example_def)

lemma example_run_notebook:
  "calculate_pt_current_2 lib_example notebook_globals =
     ([F3 (500 / 779), F3 (1413455771 / 743140000)], None)"
proof -
  have ne: "(155.8::real) \<noteq> 0" "(297256 / 697865 :: real) \<noteq> 0" by simp_all
  show ?thesis
    using example_run [OF notebook_globals_fields example_distributions(1)
        example_efficiencies(1) ne]
    unfolding lib_example_efficacy by simp
qed

text \<open>
  Claim C7 says that the reference irradiance which enters
  \<^verbatim>\<open>normalized_response = als_IPH3 / (irradiance * efficiency)\<close> is the black-body power
  per area \<open>sigma * T ^ 4\<close>. The code computes \<^verbatim>\<open>power_per_area\<close> and never reads it.
  What holds instead: the irradiance is 1000 lx divided by the luminous efficacy of
  illuminant A, converted to mW per square centimetre, the printed response is \<^verbatim>\<open>als_IPH3\<close> over the
  product of that irradiance and the efficiency of the curve in \<^verbatim>\<open>spec\<close>, and no value
  of the Stefan-Boltzmann constant changes anything that the run prints or raises.
\<close>

theorem normalized_response_from_efficacy:
  "calculate_pt_current_2 (lib\<lparr>sigma := s\<rparr>) g = calculate_pt_current_2 lib g \<and>
   (calculate_pt_current_2 lib g = ([F3 irr, F3 nr], None) \<longrightarrow>
      luminous_efficacy_A lib \<noteq> 0 \<and>
      irr = 1000 / luminous_efficacy_A lib * 10 ^ 3 / 100 / 100 \<and>
      (\<exists>dl als_IPH3 spec dis.
         getitem (gpar g) ''downlink'' = Inr dl \<and> getnum dl ''als_IPH3'' = Inr als_IPH3 \<and>
         gspec g = Some spec \<and> distribution lib spec = Inr dis \<and>
         nr = als_IPH3 / (irr * luminous_efficiency lib dis None) * 10 ^ 3))"
proof (intro conjI impI)
  have a: "bb_irradiance (lib\<lparr>sigma := s\<rparr>) g = bb_irradiance lib g"
    by (simp add: bb_irradiance_def sigma_unused Let_def)
  have b: "normalized_response (lib\<lparr>sigma := s\<rparr>) g i = normalized_response lib g i" for i
    by (simp add: normalized_response_def sigma_unused split: option.splits)
  show "calculate_pt_current_2 (lib\<lparr>sigma := s\<rparr>) g = calculate_pt_current_2 lib g"
    unfolding calculate_pt_current_2_def a b ..
next
  assume run: "calculate_pt_current_2 lib g = ([F3 irr, F3 nr], None)"
  then obtain n where irr: "bb_irradiance lib g = Inr irr"
    and n: "normalized_response lib g irr = Inr n" and nr: "nr = n * 10 ^ 3"
    by (auto simp: calculate_pt_current_2_def split: sum.splits)
  from bb_irradiance_value [OF irr]
  show "luminous_efficacy_A lib \<noteq> 0"
    and "irr = 1000 / luminous_efficacy_A lib * 10 ^ 3 / 100 / 100" by simp_all
  from n obtain spec dis dl a where
    "gspec g = Some spec" "distribution lib spec = Inr dis"
    "getitem (gpar g) ''downlink'' = Inr dl" "getnum dl ''als_IPH3'' = Inr a"
    "n = a / (irr * luminous_efficiency lib dis None)"
    by (auto simp: normalized_response_def and_then_def Let_def
        split: option.splits sum.splits if_splits)
  then show "\<exists>dl als_IPH3 spec dis.
         getitem (gpar g) ''downlink'' = Inr dl \<and> getnum dl ''als_IPH3'' = Inr als_IPH3 \<and>
         gspec g = Some spec \<and> distribution lib spec = Inr dis \<and>
         nr = als_IPH3 / (irr * luminous_efficiency lib dis None) * 10 ^ 3"
    using nr by blast
qed

theorem normalized_response_from_efficacy_witness:
  "calculate_pt_current_2 (lib_example\<lparr>sigma := 0\<rparr>) notebook_globals
     = ([F3 (500 / 779), F3 (1413455771 / 743140000)], None) \<and>
   luminous_efficacy_A lib_example \<noteq> 0 \<and>
   (500 / 779 :: real) = 1000 / luminous_efficacy_A lib_example * 10 ^ 3 / 100 / 100"
  using normalized_response_from_efficacy [where lib = lib_example and s = 0
      and g = notebook_globals and irr = "500 / 779" and nr = "1413455771 / 743140000"]
  unfolding example_run_notebook by simp

text \<open>
  On the sample library the irradiance that enters the response is \<open>500 / 779\<close>, about
  0.642, and not the black-body power per area, about \<open>3.77e6\<close>, in either unit; another
  luminous efficacy gives another response.
\<close>

theorem blackbody_irradiance_counterexample:
  "calculate_pt_current_2 lib_example notebook_globals
     = ([F3 (500 / 779), F3 (1413455771 / 743140000)], None) \<and>
   power_per_area lib_example = 5.670374419 / 10 ^ 8 * 2856 ^ 4 \<and>
   (500 / 779 :: real) \<noteq> 5.670374419 / 10 ^ 8 * 2856 ^ 4 \<and>
   (500 / 779 :: real) \<noteq> 5.670374419 / 10 ^ 8 * 2856 ^ 4 * 10 ^ 3 / 100 / 100 \<and>
   calculate_pt_current_2 (lib_example\<lparr>luminous_efficacy_A := 100\<rparr>) notebook_globals
     = ([F3 1, F3 (1814449 / 1486280)], None)"
proof -
  have ne: "(100::real) \<noteq> 0" "(297256 / 697865 :: real) \<noteq> 0" by simp_all
  have "calculate_pt_current_2 (lib_example\<lparr>luminous_efficacy_A := 100\<rparr>) notebook_globals
     = ([F3 1, F3 (1814449 / 1486280)], None)"
    using example_run [OF notebook_globals_fields example_distributions(1)
        example_efficiencies(1) ne]
    by simp
  moreover have "power_per_area lib_example = 5.670374419 / 10 ^ 8 * 2856 ^ 4"
    by (simp add: power_per_area_def lib_example_fields)
  moreover have "(500 / 779 :: real) \<noteq> 5.670374419 / 10 ^ 8 * 2856 ^ 4" by simp
  moreover have "(500 / 779 :: real) \<noteq> 5.670374419 / 10 ^ 8 * 2856 ^ 4 * 10 ^ 3 / 100 / 100"
    by simp
  ultimately show ?thesis using example_run_notebook by (intro conjI)
qed

section \<open>The curve that the last cell reads\<close>

lemma normalized_response_value:
  assumes "normalized_response lib g irr = Inr n"
  shows "\<exists>spec dis dl a. gspec g = Some spec \<and> distribution lib spec = Inr dis \<and>
     getitem (gpar g) ''downlink'' = Inr dl \<and> getnum dl ''als_IPH3'' = Inr a \<and>
     irr * luminous_efficiency lib dis None \<noteq> 0 \<and>
     n = a / (irr * luminous_efficiency lib dis None)"
  using assms
  by (auto simp: normalized_response_def and_then_def Let_def
      split: option.splits sum.splits if_splits)

lemma calculate_pt_current_2_par_curve:
  assumes dl: "getitem (gpar g) ''downlink'' = Inr dl"
    and k: "k = ''als_spectral_response'' \<or> k = ''led_spectral_response''"
  shows "calculate_pt_current_2 lib
           (g\<lparr>gpar := AList.update ''downlink'' (AList.update k v dl) (gpar g)\<rparr>)
       = calculate_pt_current_2 lib g"
proof -
  let ?g = "g\<lparr>gpar := AList.update ''downlink'' (AList.update k v dl) (gpar g)\<rparr>"
  have n: "getnum (AList.update k v dl) ''distance'' = getnum dl ''distance''"
    "getnum (AList.update k v dl) ''als_IPH3'' = getnum dl ''als_IPH3''"
    using k by (auto simp: getnum_update_other)
  have a: "bb_irradiance lib ?g = bb_irradiance lib g"
    using dl by (simp add: bb_irradiance_def getitem_update n)
  have b: "normalized_response lib ?g i = normalized_response lib g i" for i
    using dl by (simp add: normalized_response_def getitem_update n split: option.splits)
  show ?thesis unfolding calculate_pt_current_2_def a b ..
qed

lemma example_run_led:
  "calculate_pt_current_2 lib_example (notebook_globals\<lparr>gspec := Some (Table led_spectral_response)\<rparr>)
     = ([F3 (500 / 779), F3 (55364309 / 16243750)], None)"
proof -
  have g: "gpar (notebook_globals\<lparr>gspec := Some (Table led_spectral_response)\<rparr>) = par_merged"
    "gspec (notebook_globals\<lparr>gspec := Some (Table led_spectral_response)\<rparr>)
       = Some (Table led_spectral_response)"
    by (simp_all add: notebook_globals_fields)
  have ne: "(155.8::real) \<noteq> 0" "(2599 / 10934 :: real) \<noteq> 0" by simp_all
  show ?thesis
    using example_run [OF g example_distributions(2) example_efficiencies(2) ne]
    unfolding lib_example_efficacy by simp
qed

text \<open>
  Claim C10 says that two runs of the second \<^verbatim>\<open>calculate_pt_current\<close> which agree on
  \<^verbatim>\<open>par\<close> and differ in the module-level \<^verbatim>\<open>spec\<close> print different normalized
  responses. The function does read its curve from \<^verbatim>\<open>spec\<close> and not from \<^verbatim>\<open>par\<close>, but
  not every difference shows. What holds: the cells before the last one bind \<^verbatim>\<open>spec\<close> to
  the spectral response of the downlink sensor; replacing a curve of
  \<^verbatim>\<open>par['downlink']\<close> by any value changes nothing that the run prints or raises; and
  two runs without an exception that agree on \<^verbatim>\<open>par\<close>, with \<^verbatim>\<open>als_IPH3\<close> not zero,
  print the same irradiance and compute different normalized responses whenever the library
  gives the two distributions made from their \<^verbatim>\<open>spec\<close> different luminous efficiencies.
  The output is therefore not a function of \<^verbatim>\<open>par\<close> alone: on the sample library the
  notebook's table prints 1.902 with the sensor's curve in \<^verbatim>\<open>spec\<close> and 3.408 with the
  curve of the LED.
\<close>

theorem spec_read_from_globals:
  "and_then cell_par cell_spec = Inr notebook_globals \<and>
   gspec notebook_globals = Some (Table als_spectral_response) \<and>
   (getitem (gpar g) ''downlink'' = Inr dl \<and>
    (k = ''als_spectral_response'' \<or> k = ''led_spectral_response'') \<longrightarrow>
      calculate_pt_current_2 lib
        (g\<lparr>gpar := AList.update ''downlink'' (AList.update k v dl) (gpar g)\<rparr>)
      = calculate_pt_current_2 lib g) \<and>
   (gpar g1 = gpar g2 \<and>
    getitem (gpar g1) ''downlink'' = Inr dl1 \<and> getnum dl1 ''als_IPH3'' = Inr a \<and> a \<noteq> 0 \<and>
    gspec g1 = Some s1 \<and> gspec g2 = Some s2 \<and>
    distribution lib s1 = Inr d1 \<and> distribution lib s2 = Inr d2 \<and>
    luminous_efficiency lib d1 None \<noteq> luminous_efficiency lib d2 None \<and>
    calculate_pt_current_2 lib g1 = ([F3 i1, F3 r1], None) \<and>
    calculate_pt_current_2 lib g2 = ([F3 i2, F3 r2], None) \<longrightarrow>
      i1 = i2 \<and> r1 \<noteq> r2)"
proof (intro conjI impI)
  show "and_then cell_par cell_spec = Inr notebook_globals"
    by (rule notebook_cells)
  show "gspec notebook_globals = Some (Table als_spectral_response)"
    by (rule notebook_globals_fields(2))
next
  assume "getitem (gpar g) ''downlink'' = Inr dl \<and>
    (k = ''als_spectral_response'' \<or> k = ''led_spectral_response'')"
  then show "calculate_pt_current_2 lib
        (g\<lparr>gpar := AList.update ''downlink'' (AList.update k v dl) (gpar g)\<rparr>)
      = calculate_pt_current_2 lib g"
    by (intro calculate_pt_current_2_par_curve) simp_all
next
  assume h: "gpar g1 = gpar g2 \<and>
    getitem (gpar g1) ''downlink'' = Inr dl1 \<and> getnum dl1 ''als_IPH3'' = Inr a \<and> a \<noteq> 0 \<and>
    gspec g1 = Some s1 \<and> gspec g2 = Some s2 \<and>
    distribution lib s1 = Inr d1 \<and> distribution lib s2 = Inr d2 \<and>
    luminous_efficiency lib d1 None \<noteq> luminous_efficiency lib d2 None \<and>
    calculate_pt_current_2 lib g1 = ([F3 i1, F3 r1], None) \<and>
    calculate_pt_current_2 lib g2 = ([F3 i2, F3 r2], None)"
  then obtain n1 n2 where
    b1: "bb_irradiance lib g1 = Inr i1" and n1: "normalized_response lib g1 i1 = Inr n1"
    and r1: "r1 = n1 * 10 ^ 3"
    and b2: "bb_irradiance lib g2 = Inr i2" and n2: "normalized_response lib g2 i2 = Inr n2"
    and r2: "r2 = n2 * 10 ^ 3"
    by (auto simp: calculate_pt_current_2_def split: sum.splits)
  show i: "i1 = i2"
    using bb_irradiance_value [OF b1] bb_irradiance_value [OF b2] by simp
  from normalized_response_value [OF n1] h
  have v1: "i1 * luminous_efficiency lib d1 None \<noteq> 0"
    "n1 = a / (i1 * luminous_efficiency lib d1 None)" by auto
  from normalized_response_value [OF n2] h
  have v2: "i2 * luminous_efficiency lib d2 None \<noteq> 0"
    "n2 = a / (i2 * luminous_efficiency lib d2 None)" by auto
  show "r1 \<noteq> r2"
  proof
    assume "r1 = r2"
    then have "n1 = n2" using r1 r2 by simp
    then have "a / (i1 * luminous_efficiency lib d1 None) = a / (i1 * luminous_efficiency lib d2 None)"
      using v1(2) v2(2) i by simp
    then have "i1 * luminous_efficiency lib d1 None = i1 * luminous_efficiency lib d2 None"
      using h v1(1) v2(1) i by (simp add: frac_eq_eq)
    then have "luminous_efficiency lib d1 None = luminous_efficiency lib d2 None"
      using v1(1) by simp
    then show False using h by simp
  qed
qed


theorem spec_read_from_globals_witness:
  "calculate_pt_current_2 lib_example
     (notebook_globals\<lparr>gpar := AList.update ''downlink''
        (AList.update ''als_spectral_response'' (Table led_spectral_response)
           (par_downlink @ [(''distance'', Num (10 / 10 ^ 3))]))
        (gpar notebook_globals)\<rparr>)
     = ([F3 (500 / 779), F3 (1413455771 / 743140000)], None) \<and>
   calculate_pt_current_2 lib_example
     (notebook_globals\<lparr>gspec := Some (Table led_spectral_response)\<rparr>)
     = ([F3 (500 / 779), F3 (55364309 / 16243750)], None) \<and>
   (1413455771 / 743140000 :: real) \<noteq> 55364309 / 16243750 \<and>
   fixed3 (1413455771 / 743140000) = 1902 \<and> fixed3 (55364309 / 16243750) = 3408"
proof -
  let ?dl = "par_downlink @ [(''distance'', Num (10 / 10 ^ 3))]"
  let ?g2 = "notebook_globals\<lparr>gspec := Some (Table led_spectral_response)\<rparr>"
  note t = spec_read_from_globals [where lib = lib_example and g = notebook_globals
      and dl = ?dl and k = "''als_spectral_response''" and v = "Table led_spectral_response"
      and ?g1.0 = notebook_globals and ?g2.0 = ?g2 and ?dl1.0 = ?dl and a = "520 / 10 ^ 6"
      and ?s1.0 = "Table als_spectral_response" and ?s2.0 = "Table led_spectral_response"
      and ?d1.0 = "SpectralDistribution (map (\<lambda>v. v * (1 / 99.695 * 1)) als_y) als_x"
      and ?d2.0 = "SpectralDistribution (map (\<lambda>v. v * (1 / 0.994 * 1)) led_y) led_x"
      and ?i1.0 = "500 / 779" and ?r1.0 = "1413455771 / 743140000"
      and ?i2.0 = "500 / 779" and ?r2.0 = "55364309 / 16243750"]
  have dl: "getitem (gpar notebook_globals) ''downlink'' = Inr ?dl"
    unfolding notebook_globals_fields by (rule merged_downlink)
  have first: "calculate_pt_current_2 lib_example
     (notebook_globals\<lparr>gpar := AList.update ''downlink''
        (AList.update ''als_spectral_response'' (Table led_spectral_response) ?dl)
        (gpar notebook_globals)\<rparr>)
     = calculate_pt_current_2 lib_example notebook_globals"
  proof (rule t [THEN conjunct2, THEN conjunct2, THEN conjunct1, THEN mp])
    show "getitem (gpar notebook_globals) ''downlink'' = Inr ?dl \<and>
      (''als_spectral_response'' = ''als_spectral_response'' \<or>
       ''als_spectral_response'' = ''led_spectral_response'')"
      using dl by simp
  qed
  have d: "distribution lib_example (Table als_spectral_response)
       = Inr (SpectralDistribution (map (\<lambda>v. v * (1 / 99.695 * 1)) als_y) als_x)"
    "distribution lib_example (Table led_spectral_response)
       = Inr (SpectralDistribution (map (\<lambda>v. v * (1 / 0.994 * 1)) led_y) led_x)"
    using example_distributions [of "155.8"] unfolding lib_example_efficacy .
  have e: "luminous_efficiency lib_example
        (SpectralDistribution (map (\<lambda>v. v * (1 / 99.695 * 1)) als_y) als_x) None
      \<noteq> luminous_efficiency lib_example
        (SpectralDistribution (map (\<lambda>v. v * (1 / 0.994 * 1)) led_y) led_x) None"
    unfolding example_efficiencies by simp
  have a: "(520 / 10 ^ 6 :: real) \<noteq> 0" by simp
  have g: "gpar notebook_globals = gpar ?g2" "gspec notebook_globals = Some (Table als_spectral_response)"
    "gspec ?g2 = Some (Table led_spectral_response)"
    by (simp_all add: notebook_globals_fields)
  have prem: "gpar notebook_globals = gpar ?g2 \<and>
      getitem (gpar notebook_globals) ''downlink'' = Inr ?dl \<and>
      getnum ?dl ''als_IPH3'' = Inr (520 / 10 ^ 6) \<and> (520 / 10 ^ 6 :: real) \<noteq> 0 \<and>
      gspec notebook_globals = Some (Table als_spectral_response) \<and>
      gspec ?g2 = Some (Table led_spectral_response) \<and>
      distribution lib_example (Table als_spectral_response)
        = Inr (SpectralDistribution (map (\<lambda>v. v * (1 / 99.695 * 1)) als_y) als_x) \<and>
      distribution lib_example (Table led_spectral_response)
        = Inr (SpectralDistribution (map (\<lambda>v. v * (1 / 0.994 * 1)) led_y) led_x) \<and>
      luminous_efficiency lib_example
          (SpectralDistribution (map (\<lambda>v. v * (1 / 99.695 * 1)) als_y) als_x) None
        \<noteq> luminous_efficiency lib_example
          (SpectralDistribution (map (\<lambda>v. v * (1 / 0.994 * 1)) led_y) led_x) None \<and>
      calculate_pt_current_2 lib_example notebook_globals
        = ([F3 (500 / 779), F3 (1413455771 / 743140000)], None) \<and>
      calculate_pt_current_2 lib_example ?g2
        = ([F3 (500 / 779), F3 (55364309 / 16243750)], None)"
    by (intro conjI g dl downlink_lookups(5) a d e example_run_notebook example_run_led)
  have differ: "(1413455771 / 743140000 :: real) \<noteq> 55364309 / 16243750"
    by (rule t [THEN conjunct2, THEN conjunct2, THEN conjunct2, THEN mp, OF prem, THEN conjunct2])
  have first': "calculate_pt_current_2 lib_example
     (notebook_globals\<lparr>gpar := AList.update ''downlink''
        (AList.update ''als_spectral_response'' (Table led_spectral_response) ?dl)
        (gpar notebook_globals)\<rparr>)
     = ([F3 (500 / 779), F3 (1413455771 / 743140000)], None)"
    unfolding first by (rule example_run_notebook)
  have shown: "fixed3 (1413455771 / 743140000) = 1902" "fixed3 (55364309 / 16243750) = 3408"
    by (rule fixed3_between; simp)+
  show ?thesis by (intro conjI first' example_run_led differ shown)
qed

text \<open>
  Two values of \<^verbatim>\<open>spec\<close> that differ from the notebook's and print what it prints: the
  same curve at twice the amplitude, which the normalisation cancels, and the same curve
  with a further key, which the function never reads.
\<close>

theorem spec_differs_output_same_counterexample:
  "gpar (notebook_globals\<lparr>gspec :=
       Some (Table (AList.update ''y'' (map ((*) 2) als_y) als_spectral_response))\<rparr>)
     = gpar notebook_globals \<and>
   gspec (notebook_globals\<lparr>gspec :=
       Some (Table (AList.update ''y'' (map ((*) 2) als_y) als_spectral_response))\<rparr>)
     \<noteq> gspec notebook_globals \<and>
   calculate_pt_current_2 lib_example (notebook_globals\<lparr>gspec :=
       Some (Table (AList.update ''y'' (map ((*) 2) als_y) als_spectral_response))\<rparr>)
     = ([F3 (500 / 779), F3 (1413455771 / 743140000)], None) \<and>
   gspec (notebook_globals\<lparr>gspec := Some (Table (als_spectral_response @ [(''z'', [])]))\<rparr>)
     \<noteq> gspec notebook_globals \<and>
   calculate_pt_current_2 lib_example (notebook_globals\<lparr>gspec :=
       Some (Table (als_spectral_response @ [(''z'', [])]))\<rparr>)
     = ([F3 (500 / 779), F3 (1413455771 / 743140000)], None) \<and>
   calculate_pt_current_2 lib_example notebook_globals
     = ([F3 (500 / 779), F3 (1413455771 / 743140000)], None)"
proof -
  let ?s2 = "Table (AList.update ''y'' (map ((*) 2) als_y) als_spectral_response)"
  let ?s3 = "Table (als_spectral_response @ [(''z'', [])])"
  have ne: "(155.8::real) \<noteq> 0" "(297256 / 697865 :: real) \<noteq> 0" by simp_all
  have two: "(0::real) < 2" by simp
  have y: "getitem als_spectral_response ''y'' = Inr als_y"
    by (simp add: als_spectral_response_def getitem_def)
  have d2: "distribution (lib_example\<lparr>luminous_efficacy_A := 155.8\<rparr>) ?s2
      = Inr (SpectralDistribution (map (\<lambda>v. v * (1 / 99.695 * 1)) als_y) als_x)"
    unfolding distribution_scaled [OF two y] by (rule example_distributions(1))
  have "spectral_distribution ?s3 = spectral_distribution (Table als_spectral_response)"
    by (simp add: spectral_distribution_def getitem_def als_spectral_response_def)
  then have "distribution (lib_example\<lparr>luminous_efficacy_A := 155.8\<rparr>) ?s3
      = distribution (lib_example\<lparr>luminous_efficacy_A := 155.8\<rparr>) (Table als_spectral_response)"
    unfolding distribution_def by (rule arg_cong)
  then have d3: "distribution (lib_example\<lparr>luminous_efficacy_A := 155.8\<rparr>) ?s3
      = Inr (SpectralDistribution (map (\<lambda>v. v * (1 / 99.695 * 1)) als_y) als_x)"
    unfolding example_distributions(1) .
  have g2: "gpar (notebook_globals\<lparr>gspec := Some ?s2\<rparr>) = par_merged"
    "gspec (notebook_globals\<lparr>gspec := Some ?s2\<rparr>) = Some ?s2"
    by (simp_all add: notebook_globals_fields)
  have g3: "gpar (notebook_globals\<lparr>gspec := Some ?s3\<rparr>) = par_merged"
    "gspec (notebook_globals\<lparr>gspec := Some ?s3\<rparr>) = Some ?s3"
    by (simp_all add: notebook_globals_fields)
  have r2: "calculate_pt_current_2 lib_example (notebook_globals\<lparr>gspec := Some ?s2\<rparr>)
     = ([F3 (500 / 779), F3 (1413455771 / 743140000)], None)"
    using example_run [OF g2 d2 example_efficiencies(1) ne]
    unfolding lib_example_efficacy by simp
  have r3: "calculate_pt_current_2 lib_example (notebook_globals\<lparr>gspec := Some ?s3\<rparr>)
     = ([F3 (500 / 779), F3 (1413455771 / 743140000)], None)"
    using example_run [OF g3 d3 example_efficiencies(1) ne]
    unfolding lib_example_efficacy by simp
  have n2: "gspec (notebook_globals\<lparr>gspec := Some ?s2\<rparr>) \<noteq> gspec notebook_globals"
    by (simp add: notebook_globals_fields als_spectral_response_def als_y_def)
  have n3: "gspec (notebook_globals\<lparr>gspec := Some ?s3\<rparr>) \<noteq> gspec notebook_globals"
    by (simp add: notebook_globals_fields)
  show ?thesis
    using g2(1) n2 r2 n3 r3 example_run_notebook
    by (simp only: notebook_globals_fields simp_thms)
qed

section \<open>Exceptions of the photodiode calculator\<close>

text \<open>
  Numbers between \<open>1e-300\<close> and \<open>1e300\<close> are inside the range of doubles, away from
  overflow and underflow.
\<close>

lemma range_facts:
  "underflow_threshold < 1 / 10 ^ 300" "10 ^ 300 < overflow_threshold"
  by (simp_all add: underflow_threshold_def overflow_threshold_def)

lemma rng_Finite:
  assumes "1 / 10 ^ 300 \<le> x" and "x \<le> 10 ^ 300"
  shows "rng x = Finite x"
proof -
  have "0 < x" using assms(1) by (rule less_le_trans [rotated]) simp
  then have "\<bar>x\<bar> = x" by simp
  moreover have "\<not> overflow_threshold \<le> x" using assms(2) range_facts(2) by linarith
  moreover have "\<not> x \<le> underflow_threshold" using assms(1) range_facts(1) by linarith
  ultimately show ?thesis by (simp add: rng_def)
qed

lemma no_overflow:
  assumes "x \<le> 10 ^ 300"
  shows "\<not> overflow_threshold \<le> x"
  using assms range_facts(2) by linarith

lemma mul_bounds:
  fixes x y :: real
  assumes "l1 \<le> x" "x \<le> u1" "l2 \<le> y" "y \<le> u2" "0 \<le> l1" "0 \<le> l2"
  shows "l1 * l2 \<le> x * y" and "x * y \<le> u1 * u2"
proof -
  show "l1 * l2 \<le> x * y" using assms by (intro mult_mono) simp_all
  have "0 \<le> x" "0 \<le> y" using assms by linarith+
  then show "x * y \<le> u1 * u2" using assms by (intro mult_mono) linarith+
qed

lemma div_bounds:
  fixes x y :: real
  assumes "l1 \<le> x" "x \<le> u1" "l2 \<le> y" "y \<le> u2" "0 \<le> l1" "0 < l2"
  shows "l1 / u2 \<le> x / y" and "x / y \<le> u1 / l2"
proof -
  have y: "0 < y" "0 < u2" using assms by linarith+
  show "l1 / u2 \<le> x / y" using assms y by (intro frac_le) simp_all
  have "0 \<le> x" using assms by linarith
  then show "x / y \<le> u1 / l2" using assms by (intro frac_le) simp_all
qed

lemma rng_between:
  assumes "l \<le> x" and "x \<le> u" and "1 / 10 ^ 300 \<le> l" and "u \<le> 10 ^ 300"
  shows "rng x = Finite x"
  using assms by (intro rng_Finite) linarith+

lemma fmul_between:
  assumes "l \<le> x * y" and "x * y \<le> u" and "1 / 10 ^ 300 \<le> l" and "u \<le> 10 ^ 300"
  shows "fmul (Finite x) (Finite y) = Finite (x * y)"
  using rng_between [OF assms] by simp

lemma fadd_between:
  assumes "l \<le> x + y" and "x + y \<le> u" and "1 / 10 ^ 300 \<le> l" and "u \<le> 10 ^ 300"
  shows "fadd (Finite x) (Finite y) = Finite (x + y)"
  using rng_between [OF assms] by simp

lemma fdiv_between:
  assumes "l \<le> x / y" and "x / y \<le> u" and "1 / 10 ^ 300 \<le> l" and "u \<le> 10 ^ 300"
    and "y \<noteq> 0"
  shows "fdiv (Finite x) (Finite y) = Inr (Finite (x / y))"
  using rng_between [OF assms(1-4)] assms(5) by simp

lemma fsquare_between:
  assumes "l \<le> x\<^sup>2" and "x\<^sup>2 \<le> u" and "1 / 10 ^ 300 \<le> l" and "u \<le> 10 ^ 300"
  shows "fsquare (Finite x) = Inr (Finite (x\<^sup>2))"
proof -
  have "x\<^sup>2 \<le> 10 ^ 300" using assms(2,4) by linarith
  then have "\<not> overflow_threshold \<le> x\<^sup>2" by (rule no_overflow)
  then show ?thesis using rng_between [OF assms] by simp
qed

lemma arctan_small:
  fixes x :: real
  assumes "0 \<le> x" and "x \<le> 1"
  shows "x / 2 \<le> arctan x"
proof -
  have "x * x \<le> 1" using assms by (intro mult_le_one) simp_all
  then have "x * x * x \<le> 1 * x" using assms(1) by (rule mult_right_mono)
  then have "x ^ 3 \<le> x" by (simp add: power3_eq_cube)
  then have "x / 2 \<le> x - x ^ 3 / 3" using assms(1) by linarith
  also have "\<dots> \<le> arctan x" using assms(1) by (rule arctan_lower)
  finally show ?thesis .
qed


text \<open>
  Between \<open>1e-30\<close> and \<open>1e30\<close> no operation of the solid angle leaves the range, and the
  value is the one of the real-number model.
\<close>

lemma angle_norm_fl_in_range:
  assumes lo: "1 / 10 ^ 30 \<le> d" and hi: "d \<le> 10 ^ 30"
  defines "w \<equiv> 4 * arctan (1 / 10 ^ 2 * (1 / 10 ^ 2)
      / (2 * d * sqrt (4 * d\<^sup>2 + (1 / 10 ^ 2)\<^sup>2 + (1 / 10 ^ 2)\<^sup>2)))"
  shows "angle_norm_fl (Finite (1 / 10 ^ 2)) (Finite (1 / 10 ^ 2)) (Finite d) = Inr (Finite w)"
    and "4 / 10 ^ 66 \<le> w" and "w \<le> 8"
proof -
  let ?a = "1 / 10 ^ 2 :: real"
  have d2: "1 / 10 ^ 60 \<le> d\<^sup>2" "d\<^sup>2 \<le> 10 ^ 60"
    using mul_bounds [OF lo hi lo hi] by (simp_all add: power2_eq_square)
  have sq_d: "fsquare (Finite d) = Inr (Finite (d\<^sup>2))"
    by (rule fsquare_between [OF d2]) simp_all
  have a2: "1 / 10 ^ 4 \<le> ?a\<^sup>2" "?a\<^sup>2 \<le> 1 / 10 ^ 4"
    by (simp_all add: power2_eq_square)
  have sq_a: "fsquare (Finite ?a) = Inr (Finite (?a\<^sup>2))"
    by (rule fsquare_between [OF a2]) simp_all
  have d4: "4 / 10 ^ 60 \<le> 4 * d\<^sup>2" "4 * d\<^sup>2 \<le> 4 * 10 ^ 60" using d2 by linarith+
  have m4: "fmul (Finite 4) (Finite (d\<^sup>2)) = Finite (4 * d\<^sup>2)"
    by (rule fmul_between [OF d4]) simp_all
  have nn: "0 \<le> 4 * d\<^sup>2" by simp
  have small: "(1 / 10 ^ 4 :: real) \<le> 1" "(0::real) \<le> 1 / 10 ^ 4" by simp_all
  have r1: "1 / 10 ^ 4 \<le> 4 * d\<^sup>2 + ?a\<^sup>2" "4 * d\<^sup>2 + ?a\<^sup>2 \<le> 4 * 10 ^ 60 + 1"
    using d4(2) a2 nn small by linarith+
  have s1: "fadd (Finite (4 * d\<^sup>2)) (Finite (?a\<^sup>2)) = Finite (4 * d\<^sup>2 + ?a\<^sup>2)"
    by (rule fadd_between [OF r1]) simp_all
  let ?r = "4 * d\<^sup>2 + ?a\<^sup>2 + ?a\<^sup>2"
  have r: "1 / 10 ^ 4 \<le> ?r" "?r \<le> 4 * 10 ^ 60 + 2"
    using r1 a2 nn small by linarith+
  have s2: "fadd (Finite (4 * d\<^sup>2 + ?a\<^sup>2)) (Finite (?a\<^sup>2)) = Finite ?r"
    by (rule fadd_between [OF r]) simp_all
  have root: "1 / 10 ^ 2 \<le> sqrt ?r" "sqrt ?r \<le> 10 ^ 31"
  proof -
    have "(1 / 10 ^ 2)\<^sup>2 \<le> ?r" using r(1) a2(2) by linarith
    then show "1 / 10 ^ 2 \<le> sqrt ?r" by (rule real_le_rsqrt)
    have le: "?r \<le> (10 ^ 31)\<^sup>2"
    proof -
      have "(4 * 10 ^ 60 + 2 :: real) \<le> (10 ^ 31)\<^sup>2" by simp
      then show ?thesis using r(2) by linarith
    qed
    show "sqrt ?r \<le> 10 ^ 31" by (rule real_le_lsqrt [OF _ le]) simp
  qed
  have nr: "\<not> ?r < 0" using r(1) small(2) by linarith
  have sr: "fsqrt (Finite ?r) = Inr (Finite (sqrt ?r))"
    unfolding fsqrt.simps using nr by (simp only: if_False)
  have aa: "1 / 10 ^ 4 \<le> ?a * ?a" "?a * ?a \<le> 1 / 10 ^ 4" by simp_all
  have ab: "fmul (Finite ?a) (Finite ?a) = Finite (?a * ?a)"
    by (rule fmul_between [OF aa]) simp_all
  have two_d: "2 / 10 ^ 30 \<le> 2 * d" "2 * d \<le> 2 * 10 ^ 30" using lo hi by linarith+
  have m2: "fmul (Finite 2) (Finite d) = Finite (2 * d)"
    by (rule fmul_between [OF two_d]) simp_all
  have den: "2 / 10 ^ 30 * (1 / 10 ^ 2) \<le> 2 * d * sqrt ?r"
    "2 * d * sqrt ?r \<le> 2 * 10 ^ 30 * 10 ^ 31"
    by (rule mul_bounds [OF two_d root]; simp)+
  have md: "fmul (Finite (2 * d)) (Finite (sqrt ?r)) = Finite (2 * d * sqrt ?r)"
    by (rule fmul_between [OF den]) simp_all
  let ?q = "?a * ?a / (2 * d * sqrt ?r)"
  have q: "1 / 10 ^ 4 / (2 * 10 ^ 30 * 10 ^ 31) \<le> ?q"
    "?q \<le> 1 / 10 ^ 4 / (2 / 10 ^ 30 * (1 / 10 ^ 2))"
    by (rule div_bounds [OF aa den]; simp)+
  have dp: "0 < 2 * d * sqrt ?r" using den(1) by (rule less_le_trans [rotated]) simp
  have dn: "2 * d * sqrt ?r \<noteq> 0" by (rule not_sym [OF less_imp_neq [OF dp]])
  have dq: "fdiv (Finite (?a * ?a)) (Finite (2 * d * sqrt ?r)) = Inr (Finite ?q)"
    by (rule fdiv_between [OF q _ _ dn]) simp_all
  have at: "1 / 10 ^ 66 \<le> arctan ?q" "arctan ?q \<le> 2"
  proof -
    have "(1 / 10 ^ 66 :: real) \<le> 1 / 10 ^ 4 / (2 * 10 ^ 30 * 10 ^ 31) / 2" by simp
    also have "\<dots> \<le> arctan (1 / 10 ^ 4 / (2 * 10 ^ 30 * 10 ^ 31))"
      by (rule arctan_small) simp_all
    also have "\<dots> \<le> arctan ?q" using q(1) by (simp only: arctan_le_iff)
    finally show "1 / 10 ^ 66 \<le> arctan ?q" .
    have "arctan ?q < pi / 2" by (rule arctan_ubound)
    moreover have "pi / 2 < 2" using pi_less_4 by simp
    ultimately show "arctan ?q \<le> 2" by simp
  qed
  have "rng (arctan ?q) = Finite (arctan ?q)" by (rule rng_between [OF at]) simp_all
  then have fa: "fatan (Finite ?q) = Finite (arctan ?q)" by (simp only: fatan.simps)
  have w: "w = 4 * arctan ?q" by (simp only: w_def)
  have w4: "4 / 10 ^ 66 \<le> 4 * arctan ?q" "4 * arctan ?q \<le> 8" using at by linarith+
  show "4 / 10 ^ 66 \<le> w" unfolding w by (rule w4(1))
  show "w \<le> 8" unfolding w by (rule w4(2))
  have m4a: "fmul (Finite 4) (Finite (arctan ?q)) = Finite (4 * arctan ?q)"
    by (rule fmul_between [OF w4]) simp_all
  show "angle_norm_fl (Finite ?a) (Finite ?a) (Finite d) = Inr (Finite w)"
    unfolding angle_norm_fl_def sq_d sq_a and_then_Inr m4 s1 s2 sr ab m2 md dq fa m4a w ..
qed

text \<open>A run of the calculator on the range of doubles, for a table with its five numbers.\<close>

lemma getnum_number:
  assumes "getnum p k = Inr x"
  shows "getitem p k = Inr (Num x)"
  using assms by (auto simp: getnum_def and_then_def split: sum.splits pval.splits)

lemma number_Num: "number (Num x) = Inr x"
  by (simp add: number_def)

lemma calculate_pd_current_fl_run:
  assumes up: "getitem par ''uplink'' = Inr p"
    and ie: "getnum p ''led_Ie'' = Inr ie" and lc: "getnum p ''led_current'' = Inr lc"
    and d: "getnum p ''distance'' = Inr d" and e: "getnum p ''pd_eff'' = Inr e"
    and i0: "getnum p ''pd_Ir0'' = Inr i0"
    and angle: "angle_norm_fl (Finite (1 / 10 ^ 2)) (Finite (1 / 10 ^ 2)) (Finite d) = Inr angle"
    and r: "fdiv (fmul (Finite ie) (Finite lc)) (Finite (20 / 10 ^ 3)) = Inr r"
  shows "calculate_pd_current_fl par =
     (case and_then (fdiv (fmul (Finite e) (fmul r angle)) (Finite i0)) (\<lambda>ratio.
             and_then (flog10 ratio) (\<lambda>l. Inr (fmul (Finite 20) l))) of
        Inl err \<Rightarrow>
          ([F3_fl (fmul r angle), F3_fl (fmul (fmul (Finite e) (fmul r angle)) (Finite (10 ^ 6)))],
           Some err)
      | Inr snr \<Rightarrow>
          ([F3_fl (fmul r angle), F3_fl (fmul (fmul (Finite e) (fmul r angle)) (Finite (10 ^ 6))),
            Repr_fl snr], None))"
proof -
  have irr: "irradiance_pd_fl p = Inr (fmul r angle)"
    unfolding irradiance_pd_fl_def Let_def d and_then_Inr angle getnum_number [OF ie]
      getnum_number [OF lc] number_Num r ..
  have cur: "current_pd_fl p = Inr (fmul (Finite e) (fmul r angle))"
    unfolding current_pd_fl_def irr and_then_Inr e ..
  have snr: "snr_pd_fl p cur = and_then (fdiv cur (Finite i0)) (\<lambda>ratio.
             and_then (flog10 ratio) (\<lambda>l. Inr (fmul (Finite 20) l)))" for cur
    unfolding snr_pd_fl_def i0 and_then_Inr ..
  show ?thesis
    unfolding calculate_pd_current_fl_def up sum.case irr cur snr ..
qed

lemma calculate_pd_current_fl_angle_error:
  assumes up: "getitem par ''uplink'' = Inr p"
    and d: "getnum p ''distance'' = Inr d"
    and angle: "angle_norm_fl (Finite (1 / 10 ^ 2)) (Finite (1 / 10 ^ 2)) (Finite d) = Inl err"
  shows "calculate_pd_current_fl par = ([], Some err)"
proof -
  have irr: "irradiance_pd_fl p = Inl err"
    unfolding irradiance_pd_fl_def Let_def d and_then_Inr angle and_then_Inl ..
  show ?thesis
    unfolding calculate_pd_current_fl_def up sum.case irr ..
qed

lemma calculate_pd_current_fl_in_range:
  assumes up: "getitem par ''uplink'' = Inr p"
    and ie: "getnum p ''led_Ie'' = Inr ie" "1 / 10 ^ 30 \<le> ie" "ie \<le> 10 ^ 30"
    and lc: "getnum p ''led_current'' = Inr lc" "1 / 10 ^ 30 \<le> lc" "lc \<le> 10 ^ 30"
    and d: "getnum p ''distance'' = Inr d" "1 / 10 ^ 30 \<le> d" "d \<le> 10 ^ 30"
    and e: "getnum p ''pd_eff'' = Inr e" "1 / 10 ^ 30 \<le> e" "e \<le> 10 ^ 30"
    and i0: "getnum p ''pd_Ir0'' = Inr i0" "i0 = 0 \<or> 1 / 10 ^ 30 \<le> i0 \<and> i0 \<le> 10 ^ 30"
  defines "irr \<equiv> ie * lc / (20 / 10 ^ 3) * (4 * arctan (1 / 10 ^ 2 * (1 / 10 ^ 2)
      / (2 * d * sqrt (4 * d\<^sup>2 + (1 / 10 ^ 2)\<^sup>2 + (1 / 10 ^ 2)\<^sup>2))))"
  shows "\<exists>snr. calculate_pd_current_fl par =
     (if i0 = 0
      then ([F3_fl (Finite irr), F3_fl (Finite (e * irr * 10 ^ 6))], Some ZeroDivisionError)
      else ([F3_fl (Finite irr), F3_fl (Finite (e * irr * 10 ^ 6)), Repr_fl snr], None))"
proof -
  let ?w = "4 * arctan (1 / 10 ^ 2 * (1 / 10 ^ 2)
      / (2 * d * sqrt (4 * d\<^sup>2 + (1 / 10 ^ 2)\<^sup>2 + (1 / 10 ^ 2)\<^sup>2)))"
  note a = angle_norm_fl_in_range [OF d(2,3)]
  have il: "1 / 10 ^ 30 * (1 / 10 ^ 30) \<le> ie * lc" "ie * lc \<le> 10 ^ 30 * 10 ^ 30"
    by (rule mul_bounds [OF ie(2,3) lc(2,3)]; simp)+
  have m1: "fmul (Finite ie) (Finite lc) = Finite (ie * lc)"
    by (rule fmul_between [OF il]) simp_all
  have c: "(20 / 10 ^ 3 :: real) \<le> 20 / 10 ^ 3" by simp
  have r: "1 / 10 ^ 30 * (1 / 10 ^ 30) / (20 / 10 ^ 3) \<le> ie * lc / (20 / 10 ^ 3)"
    "ie * lc / (20 / 10 ^ 3) \<le> 10 ^ 30 * 10 ^ 30 / (20 / 10 ^ 3)"
    by (rule div_bounds [OF il c c]; simp)+
  have cn: "(20 / 10 ^ 3 :: real) \<noteq> 0" by simp
  have dv: "fdiv (Finite (ie * lc)) (Finite (20 / 10 ^ 3)) = Inr (Finite (ie * lc / (20 / 10 ^ 3)))"
    by (rule fdiv_between [OF r _ _ cn]) simp_all
  have ib: "1 / 10 ^ 30 * (1 / 10 ^ 30) / (20 / 10 ^ 3) * (4 / 10 ^ 66) \<le> irr"
    "irr \<le> 10 ^ 30 * 10 ^ 30 / (20 / 10 ^ 3) * 8"
    unfolding irr_def by (rule mul_bounds [OF r a(2,3)]; simp)+
  have m2: "fmul (Finite (ie * lc / (20 / 10 ^ 3))) (Finite ?w) = Finite irr"
    unfolding irr_def by (rule fmul_between [OF ib [unfolded irr_def]]) simp_all
  have cb: "1 / 10 ^ 30 * (1 / 10 ^ 30 * (1 / 10 ^ 30) / (20 / 10 ^ 3) * (4 / 10 ^ 66)) \<le> e * irr"
    "e * irr \<le> 10 ^ 30 * (10 ^ 30 * 10 ^ 30 / (20 / 10 ^ 3) * 8)"
    by (rule mul_bounds [OF e(2,3) ib]; simp)+
  have m3: "fmul (Finite e) (Finite irr) = Finite (e * irr)"
    by (rule fmul_between [OF cb]) simp_all
  have m: "(10 ^ 6 :: real) \<le> 10 ^ 6" by simp
  have pb: "1 / 10 ^ 30 * (1 / 10 ^ 30 * (1 / 10 ^ 30) / (20 / 10 ^ 3) * (4 / 10 ^ 66)) * 10 ^ 6
      \<le> e * irr * 10 ^ 6"
    "e * irr * 10 ^ 6 \<le> 10 ^ 30 * (10 ^ 30 * 10 ^ 30 / (20 / 10 ^ 3) * 8) * 10 ^ 6"
    by (rule mul_bounds [OF cb m m]; simp)+
  have m4: "fmul (Finite (e * irr)) (Finite (10 ^ 6)) = Finite (e * irr * 10 ^ 6)"
    by (rule fmul_between [OF pb]) simp_all
  note run = calculate_pd_current_fl_run [OF up ie(1) lc(1) d(1) e(1) i0(1) a(1),
      unfolded m1, OF dv, unfolded m2 m3 m4]
  show ?thesis
  proof (cases "i0 = 0")
    case True
    then have "fdiv (Finite (e * irr)) (Finite i0) = Inl ZeroDivisionError" by simp
    then show ?thesis unfolding run using True by simp
  next
    case False
    then have ib0: "1 / 10 ^ 30 \<le> i0" "i0 \<le> 10 ^ 30" using i0(2) by simp_all
    have rb: "1 / 10 ^ 30 * (1 / 10 ^ 30 * (1 / 10 ^ 30) / (20 / 10 ^ 3) * (4 / 10 ^ 66)) / 10 ^ 30
        \<le> e * irr / i0"
      "e * irr / i0 \<le> 10 ^ 30 * (10 ^ 30 * 10 ^ 30 / (20 / 10 ^ 3) * 8) / (1 / 10 ^ 30)"
      by (rule div_bounds [OF cb ib0]; simp)+
    have dv0: "fdiv (Finite (e * irr)) (Finite i0) = Inr (Finite (e * irr / i0))"
      by (rule fdiv_between [OF rb _ _ False]) simp_all
    have "0 < e * irr / i0" using rb(1) by (rule less_le_trans [rotated]) simp
    then have "\<not> e * irr / i0 \<le> 0" by (simp only: not_le)
    then have lg: "flog10 (Finite (e * irr / i0)) = Inr (rng (log 10 (e * irr / i0)))"
      unfolding flog10.simps by (simp only: if_False)
    show ?thesis
      unfolding run dv0 and_then_Inr lg sum.case using False by (simp only: if_False) blast
  qed
qed

lemma threshold_order: "underflow_threshold < overflow_threshold"
  by (simp add: underflow_threshold_def overflow_threshold_def)

lemma rng_underflow:
  assumes "\<bar>x\<bar> \<le> underflow_threshold"
  shows "rng x = Finite 0"
proof -
  have "\<not> overflow_threshold \<le> \<bar>x\<bar>" using assms threshold_order by linarith
  then show ?thesis using assms by (simp add: rng_def)
qed

lemma rng_overflow:
  assumes "overflow_threshold \<le> x"
  shows "rng x = Infty True"
proof -
  have "0 < overflow_threshold" by (simp add: overflow_threshold_def)
  then have "0 < x" using assms by linarith
  then show ?thesis using assms by (simp add: rng_def)
qed

lemma rng_normal:
  assumes "underflow_threshold < x" and "x < overflow_threshold"
  shows "rng x = Finite x"
proof -
  have "0 < underflow_threshold" by (simp add: underflow_threshold_def)
  then have "\<bar>x\<bar> = x" using assms(1) by linarith
  then show ?thesis using assms by (simp add: rng_def)
qed

lemma rng_zero: "rng 0 = Finite 0"
  by (rule rng_underflow) (simp add: underflow_threshold_def)

lemma square_constant:
  "fsquare (Finite (1 / 10 ^ 2)) = Inr (Finite ((1 / 10 ^ 2)\<^sup>2))"
  by (rule fsquare_between [of "1 / 10 ^ 4" _ "1 / 10 ^ 4"]) (simp_all add: power2_eq_square)

lemma product_constant:
  "fmul (Finite (1 / 10 ^ 2)) (Finite (1 / 10 ^ 2)) = Finite (1 / 10 ^ 2 * (1 / 10 ^ 2))"
  by (rule fmul_between [of "1 / 10 ^ 4" _ _ "1 / 10 ^ 4"]) simp_all

text \<open>The distance \<open>2 ^ -1073\<close>, which Python writes \<^verbatim>\<open>1e-323\<close>: the divisor underflows.\<close>

lemma angle_norm_fl_tiny:
  "angle_norm_fl (Finite (1 / 10 ^ 2)) (Finite (1 / 10 ^ 2)) (Finite (1 / 2 ^ 1073))
     = Inl ZeroDivisionError"
proof -
  let ?a = "1 / 10 ^ 2 :: real" and ?d = "1 / 2 ^ 1073 :: real"
  have sq_d: "fsquare (Finite ?d) = Inr (Finite 0)"
  proof -
    have "?d\<^sup>2 \<le> underflow_threshold"
      by (simp add: underflow_threshold_def power2_eq_square)
    then have u: "\<bar>?d\<^sup>2\<bar> \<le> underflow_threshold" by simp
    then have "\<not> overflow_threshold \<le> ?d\<^sup>2" using threshold_order by linarith
    then show ?thesis unfolding fsquare.simps rng_underflow [OF u] by (simp only: if_False)
  qed
  have m4: "fmul (Finite 4) (Finite 0) = Finite 0" using rng_zero by simp
  have a2: "1 / 10 ^ 4 \<le> 0 + ?a\<^sup>2" "0 + ?a\<^sup>2 \<le> 1 / 10 ^ 4"
    by (simp_all add: power2_eq_square)
  have s1: "fadd (Finite 0) (Finite (?a\<^sup>2)) = Finite (0 + ?a\<^sup>2)"
    by (rule fadd_between [OF a2]) simp_all
  let ?r = "0 + ?a\<^sup>2 + ?a\<^sup>2"
  have r: "2 / 10 ^ 4 \<le> ?r" "?r \<le> 2 / 10 ^ 4" by (simp_all add: power2_eq_square)
  have s2: "fadd (Finite (0 + ?a\<^sup>2)) (Finite (?a\<^sup>2)) = Finite ?r"
    by (rule fadd_between [OF r]) simp_all
  have "\<not> ?r < 0" by simp
  then have sr: "fsqrt (Finite ?r) = Inr (Finite (sqrt ?r))"
    unfolding fsqrt.simps by (simp only: if_False)
  have root: "0 \<le> sqrt ?r" "sqrt ?r \<le> 1 / 8"
  proof -
    show "0 \<le> sqrt ?r" by simp
    have "?r \<le> (1 / 8)\<^sup>2" by (simp add: power2_eq_square)
    then show "sqrt ?r \<le> 1 / 8" by (rule real_le_lsqrt [rotated]) simp
  qed
  have m2: "fmul (Finite 2) (Finite ?d) = Finite (2 * ?d)"
  proof -
    have "rng (2 * ?d) = Finite (2 * ?d)"
      by (rule rng_normal) (simp_all add: underflow_threshold_def overflow_threshold_def)
    then show ?thesis by simp
  qed
  have md: "fmul (Finite (2 * ?d)) (Finite (sqrt ?r)) = Finite 0"
  proof -
    have "2 * ?d * sqrt ?r \<le> 2 * ?d * (1 / 8)"
      using root(2) by (intro mult_left_mono) simp_all
    also have "\<dots> \<le> underflow_threshold" by (simp add: underflow_threshold_def)
    finally have "2 * ?d * sqrt ?r \<le> underflow_threshold" .
    moreover have "0 \<le> 2 * ?d * sqrt ?r" using root(1) by (intro mult_nonneg_nonneg) simp_all
    ultimately have "\<bar>2 * ?d * sqrt ?r\<bar> \<le> underflow_threshold" by simp
    then have "rng (2 * ?d * sqrt ?r) = Finite 0" by (rule rng_underflow)
    then show ?thesis by simp
  qed
  have dq: "fdiv (Finite (?a * ?a)) (Finite 0) = Inl ZeroDivisionError" by simp
  show ?thesis
    unfolding angle_norm_fl_def sq_d square_constant and_then_Inr m4 s1 s2 sr product_constant
      m2 md dq and_then_Inl ..
qed

text \<open>The distance \<open>1e200\<close>: the square overflows.\<close>

lemma angle_norm_fl_huge:
  "angle_norm_fl (Finite (1 / 10 ^ 2)) (Finite (1 / 10 ^ 2)) (Finite (10 ^ 200))
     = Inl OverflowError"
proof -
  have "overflow_threshold \<le> (10 ^ 200 :: real)\<^sup>2"
    by (simp add: overflow_threshold_def)
  then have "fsquare (Finite (10 ^ 200)) = Inl OverflowError" by simp
  then show ?thesis unfolding angle_norm_fl_def by simp
qed

text \<open>
  The distance \<open>1e154\<close>: four times its square is an infinity, the quotient is zero and so
  are the solid angle and the currents.
\<close>

lemma angle_norm_fl_large:
  "angle_norm_fl (Finite (1 / 10 ^ 2)) (Finite (1 / 10 ^ 2)) (Finite (10 ^ 154))
     = Inr (Finite 0)"
proof -
  let ?a = "1 / 10 ^ 2 :: real" and ?d = "10 ^ 154 :: real"
  have sq_d: "fsquare (Finite ?d) = Inr (Finite (?d\<^sup>2))"
  proof -
    have lt: "?d\<^sup>2 < overflow_threshold" by (simp add: overflow_threshold_def)
    then have "\<not> overflow_threshold \<le> ?d\<^sup>2" by simp
    moreover have "rng (?d\<^sup>2) = Finite (?d\<^sup>2)"
      using lt by (intro rng_normal) (simp_all add: underflow_threshold_def)
    ultimately show ?thesis unfolding fsquare.simps by (simp only: if_False)
  qed
  have m4: "fmul (Finite 4) (Finite (?d\<^sup>2)) = Infty True"
  proof -
    have "overflow_threshold \<le> 4 * ?d\<^sup>2" by (simp add: overflow_threshold_def)
    then have "rng (4 * ?d\<^sup>2) = Infty True" by (rule rng_overflow)
    then show ?thesis by simp
  qed
  have s: "fadd (Infty True) (Finite (?a\<^sup>2)) = Infty True" by simp
  have sr: "fsqrt (Infty True) = Inr (Infty True)" by simp
  have m2: "fmul (Finite 2) (Finite ?d) = Finite (2 * ?d)"
    by (rule fmul_between [of "2 * 10 ^ 154" _ _ "2 * 10 ^ 154"]) simp_all
  have md: "fmul (Finite (2 * ?d)) (Infty True) = Infty True" by simp
  have dq: "fdiv (Finite (?a * ?a)) (Infty True) = Inr (Finite 0)" by simp
  have fa: "fatan (Finite 0) = Finite 0" using rng_zero by simp
  have m4a: "fmul (Finite 4) (Finite 0) = Finite 0" using rng_zero by simp
  show ?thesis
    unfolding angle_norm_fl_def sq_d square_constant and_then_Inr m4 s sr product_constant
      m2 md dq fa m4a ..
qed

lemma distance_lookups:
  "getitem (AList.update ''uplink''
      (AList.update ''distance'' (Num x) (par_uplink @ [(''distance'', Num (10 / 10 ^ 3))]))
      par_merged) ''uplink''
     = Inr (AList.update ''distance'' (Num x) (par_uplink @ [(''distance'', Num (10 / 10 ^ 3))]))"
  "getnum (AList.update ''distance'' (Num x) (par_uplink @ [(''distance'', Num (10 / 10 ^ 3))]))
      ''distance'' = Inr x"
  "getnum (AList.update ''distance'' (Num x) (par_uplink @ [(''distance'', Num (10 / 10 ^ 3))]))
      ''led_Ie'' = Inr (145.0 / 10 ^ 3 / 100 * 20)"
  "getnum (AList.update ''distance'' (Num x) (par_uplink @ [(''distance'', Num (10 / 10 ^ 3))]))
      ''led_current'' = Inr (20 / 10 ^ 3)"
  "getnum (AList.update ''distance'' (Num x) (par_uplink @ [(''distance'', Num (10 / 10 ^ 3))]))
      ''pd_eff'' = Inr (32 / 10 ^ 6)"
  "getnum (AList.update ''distance'' (Num x) (par_uplink @ [(''distance'', Num (10 / 10 ^ 3))]))
      ''pd_Ir0'' = Inr (30 / 10 ^ 9)"
  by (simp_all add: getitem_update getnum_def getitem_def update_conv' par_uplink_def)

text \<open>
  Claim C5 says that on positive radiant intensity, drive current, distance, efficiency and
  dark current \<^verbatim>\<open>calculate_pd_current\<close> raises an arithmetic exception exactly when the
  dark current is zero. On doubles that holds inside a range only. What holds: if the
  intensity, the drive current, the distance and the efficiency lie between \<open>1e-30\<close> and
  \<open>1e30\<close>, and the dark current is zero or lies between \<open>1e-30\<close> and \<open>1e30\<close>, then no
  operation overflows or underflows, the run ends with the division by zero exactly when
  the dark current is zero and without any exception otherwise, and the irradiance and the
  current that it prints first are those of the real-number model.
\<close>

theorem pd_exceptions_in_range:
  assumes "getitem par ''uplink'' = Inr p"
    and "getnum p ''led_Ie'' = Inr ie" and "1 / 10 ^ 30 \<le> ie" and "ie \<le> 10 ^ 30"
    and "getnum p ''led_current'' = Inr lc" and "1 / 10 ^ 30 \<le> lc" and "lc \<le> 10 ^ 30"
    and "getnum p ''distance'' = Inr d" and "1 / 10 ^ 30 \<le> d" and "d \<le> 10 ^ 30"
    and "getnum p ''pd_eff'' = Inr e" and "1 / 10 ^ 30 \<le> e" and "e \<le> 10 ^ 30"
    and "getnum p ''pd_Ir0'' = Inr i0" and "i0 = 0 \<or> 1 / 10 ^ 30 \<le> i0 \<and> i0 \<le> 10 ^ 30"
  shows "(snd (calculate_pd_current_fl par) = Some ZeroDivisionError \<longleftrightarrow> i0 = 0) \<and>
         (snd (calculate_pd_current_fl par) = None \<longleftrightarrow> i0 \<noteq> 0) \<and>
         (\<exists>irr cur. irradiance_pd p = Inr irr \<and> current_pd p = Inr cur \<and>
            take 2 (fst (calculate_pd_current_fl par))
              = [F3_fl (Finite irr), F3_fl (Finite (cur * 10 ^ 6))])"
proof -
  let ?irr = "ie * lc / (20 / 10 ^ 3) * (4 * arctan (1 / 10 ^ 2 * (1 / 10 ^ 2)
      / (2 * d * sqrt (4 * d\<^sup>2 + (1 / 10 ^ 2)\<^sup>2 + (1 / 10 ^ 2)\<^sup>2))))"
  from calculate_pd_current_fl_in_range [OF assms]
  obtain snr where run: "calculate_pd_current_fl par =
     (if i0 = 0
      then ([F3_fl (Finite ?irr), F3_fl (Finite (e * ?irr * 10 ^ 6))], Some ZeroDivisionError)
      else ([F3_fl (Finite ?irr), F3_fl (Finite (e * ?irr * 10 ^ 6)), Repr_fl snr], None))" ..
  have dpos: "0 < d" using assms(9) by (rule less_le_trans [rotated]) simp
  have irr: "irradiance_pd p = Inr ?irr"
    unfolding irradiance_pd_def Let_def assms(8) and_then_Inr angle_norm_defined [OF dpos]
      assms(2) assms(5) ..
  have cur: "current_pd p = Inr (e * ?irr)"
    unfolding current_pd_def irr and_then_Inr assms(11) ..
  have "take 2 (fst (calculate_pd_current_fl par))
      = [F3_fl (Finite ?irr), F3_fl (Finite (e * ?irr * 10 ^ 6))]"
    unfolding run by simp
  then have "\<exists>irr cur. irradiance_pd p = Inr irr \<and> current_pd p = Inr cur \<and>
      take 2 (fst (calculate_pd_current_fl par))
        = [F3_fl (Finite irr), F3_fl (Finite (cur * 10 ^ 6))]"
    using irr cur by blast
  moreover have "snd (calculate_pd_current_fl par) = Some ZeroDivisionError \<longleftrightarrow> i0 = 0"
    unfolding run by simp
  moreover have "snd (calculate_pd_current_fl par) = None \<longleftrightarrow> i0 \<noteq> 0"
    unfolding run by simp
  ultimately show ?thesis by (intro conjI)
qed

theorem pd_exceptions_in_range_witness:
  "snd (calculate_pd_current_fl par_merged) = None \<and>
   snd (calculate_pd_current_fl
     (AList.update ''uplink''
        (AList.update ''pd_Ir0'' (Num 0) (par_uplink @ [(''distance'', Num (10 / 10 ^ 3))]))
        par_merged)) = Some ZeroDivisionError"
proof
  have b: "(1 / 10 ^ 30 :: real) \<le> 145.0 / 10 ^ 3 / 100 * 20" "(145.0 / 10 ^ 3 / 100 * 20 :: real) \<le> 10 ^ 30"
    "(1 / 10 ^ 30 :: real) \<le> 20 / 10 ^ 3" "(20 / 10 ^ 3 :: real) \<le> 10 ^ 30"
    "(1 / 10 ^ 30 :: real) \<le> 10 / 10 ^ 3" "(10 / 10 ^ 3 :: real) \<le> 10 ^ 30"
    "(1 / 10 ^ 30 :: real) \<le> 32 / 10 ^ 6" "(32 / 10 ^ 6 :: real) \<le> 10 ^ 30"
    "(30 / 10 ^ 9 :: real) = 0 \<or> 1 / 10 ^ 30 \<le> (30 / 10 ^ 9 :: real) \<and> (30 / 10 ^ 9 :: real) \<le> 10 ^ 30"
    "(0::real) = 0 \<or> 1 / 10 ^ 30 \<le> (0::real) \<and> (0::real) \<le> 10 ^ 30"
    by simp_all
  have ne: "(30 / 10 ^ 9 :: real) \<noteq> 0" by simp
  show "snd (calculate_pd_current_fl par_merged) = None"
    using pd_exceptions_in_range [OF merged_uplink uplink_lookups(2) b(1,2)
        uplink_lookups(3) b(3,4) uplink_lookups(1) b(5,6) uplink_lookups(4) b(7,8)
        uplink_lookups(5) b(9)] ne
    by (elim conjE) (simp only: simp_thms)
  let ?p = "AList.update ''pd_Ir0'' (Num 0) (par_uplink @ [(''distance'', Num (10 / 10 ^ 3))])"
  have up: "getitem (AList.update ''uplink'' ?p par_merged) ''uplink'' = Inr ?p"
    by (simp add: getitem_update)
  have l: "getnum ?p ''led_Ie'' = Inr (145.0 / 10 ^ 3 / 100 * 20)"
    "getnum ?p ''led_current'' = Inr (20 / 10 ^ 3)"
    "getnum ?p ''distance'' = Inr (10 / 10 ^ 3)"
    "getnum ?p ''pd_eff'' = Inr (32 / 10 ^ 6)"
    "getnum ?p ''pd_Ir0'' = Inr 0"
    by (simp_all add: getnum_def getitem_def update_conv' par_uplink_def)
  show "snd (calculate_pd_current_fl (AList.update ''uplink'' ?p par_merged)) = Some ZeroDivisionError"
    using pd_exceptions_in_range [OF up l(1) b(1,2) l(2) b(3,4) l(3) b(5,6) l(4) b(7,8)
        l(5) b(10)]
    by (elim conjE) (simp only: simp_thms)
qed

text \<open>
  Outside such a range the claim fails on positive numbers and the notebook's dark current
  of 30 nA: at the distance \<open>2 ^ -1073\<close> (in Python \<^verbatim>\<open>1e-323\<close>) the divisor of the solid
  angle underflows to zero and the division raises; at \<open>1e154\<close> the current is zero after an
  overflow to infinity, two lines are printed and the logarithm raises; at \<open>1e200\<close> the
  square raises \<^verbatim>\<open>OverflowError\<close>.
\<close>

theorem pd_exceptions_counterexample:
  "calculate_pd_current_fl (AList.update ''uplink''
      (AList.update ''distance'' (Num (1 / 2 ^ 1073))
         (par_uplink @ [(''distance'', Num (10 / 10 ^ 3))])) par_merged)
     = ([], Some ZeroDivisionError) \<and>
   calculate_pd_current_fl (AList.update ''uplink''
      (AList.update ''distance'' (Num (10 ^ 154))
         (par_uplink @ [(''distance'', Num (10 / 10 ^ 3))])) par_merged)
     = ([F3_fl (Finite 0), F3_fl (Finite 0)], Some ValueError) \<and>
   calculate_pd_current_fl (AList.update ''uplink''
      (AList.update ''distance'' (Num (10 ^ 200))
         (par_uplink @ [(''distance'', Num (10 / 10 ^ 3))])) par_merged)
     = ([], Some OverflowError)"
proof (intro conjI)
  show "calculate_pd_current_fl (AList.update ''uplink''
      (AList.update ''distance'' (Num (1 / 2 ^ 1073))
         (par_uplink @ [(''distance'', Num (10 / 10 ^ 3))])) par_merged)
     = ([], Some ZeroDivisionError)"
    by (rule calculate_pd_current_fl_angle_error
        [OF distance_lookups(1) distance_lookups(2) angle_norm_fl_tiny])
  show "calculate_pd_current_fl (AList.update ''uplink''
      (AList.update ''distance'' (Num (10 ^ 200))
         (par_uplink @ [(''distance'', Num (10 / 10 ^ 3))])) par_merged)
     = ([], Some OverflowError)"
    by (rule calculate_pd_current_fl_angle_error
        [OF distance_lookups(1) distance_lookups(2) angle_norm_fl_huge])
  let ?ie = "145.0 / 10 ^ 3 / 100 * 20 :: real" and ?lc = "20 / 10 ^ 3 :: real"
  have m1: "fmul (Finite ?ie) (Finite ?lc) = Finite (?ie * ?lc)"
    by (rule fmul_between [of "1 / 10 ^ 4" _ _ 1]) simp_all
  have cn: "(20 / 10 ^ 3 :: real) \<noteq> 0" by simp
  have "fdiv (Finite (?ie * ?lc)) (Finite (20 / 10 ^ 3)) = Inr (Finite (?ie * ?lc / (20 / 10 ^ 3)))"
    by (rule fdiv_between [of "1 / 10 ^ 2" _ _ 1, OF _ _ _ _ cn]) simp_all
  then have r: "fdiv (fmul (Finite ?ie) (Finite ?lc)) (Finite (20 / 10 ^ 3))
      = Inr (Finite (?ie * ?lc / (20 / 10 ^ 3)))"
    unfolding m1 .
  have z1: "fmul (Finite (?ie * ?lc / (20 / 10 ^ 3))) (Finite 0) = Finite 0"
    using rng_zero by simp
  have z2: "fmul (Finite (32 / 10 ^ 6)) (Finite 0) = Finite 0" using rng_zero by simp
  have z3: "fmul (Finite 0) (Finite (10 ^ 6)) = Finite 0" using rng_zero by simp
  have z4: "fdiv (Finite 0) (Finite (30 / 10 ^ 9)) = Inr (Finite 0)" using rng_zero by simp
  have z5: "flog10 (Finite 0) = Inl ValueError" by simp
  show "calculate_pd_current_fl (AList.update ''uplink''
      (AList.update ''distance'' (Num (10 ^ 154))
         (par_uplink @ [(''distance'', Num (10 / 10 ^ 3))])) par_merged)
     = ([F3_fl (Finite 0), F3_fl (Finite 0)], Some ValueError)"
    unfolding calculate_pd_current_fl_run [OF distance_lookups(1) distance_lookups(3)
        distance_lookups(4) distance_lookups(2) distance_lookups(5) distance_lookups(6)
        angle_norm_fl_large r]
      z1 z2 z3 z4 and_then_Inr z5 and_then_Inl sum.case ..
qed

end
